theory Spec2Isabelle
  imports Main
begin

section \<open>Types (types/music.ts)\<close>

text \<open>
  The string-literal unions of the source become datatypes. Where the source uses a
  value as a string (object keys, template strings, \<^verbatim>\<open>includes\<close>), the
  functions \<open>noteStr\<close> and \<open>chordTypeStr\<close> give the literal; a string is the
  sequence of the UTF-8 bytes of the literal as the source file has it.
\<close>

datatype NoteName =
  N_C | N_Cs | N_Db | N_D | N_Ds | N_Eb | N_E | N_F | N_Fs | N_Gb | N_G | N_Gs | N_Ab
  | N_A | N_As | N_Bb | N_B

datatype MusicMode =
  M_free | M_major | M_minor | M_dorian | M_phrygian | M_lydian | M_mixolydian | M_locrian

datatype InstrumentType = Balafon | Piano | Rhodes | Steel_drum | Pluck | Pad

datatype ChordType =
  T_major | T_minor | T_dim | T_augmented | T_5
  | T_major7 | T_minor7 | T_7 | T_dim7 | T_m7b5 | T_phi7 | T_minorMajor7
  | T_major9 | T_minor9 | T_9 | T_add9 | T_7b9 | T_7s9 | T_dim9 | T_aug9
  | T_11 | T_m11 | T_major11 | T_13 | T_13sus | T_13b9 | T_m11b5
  | T_sus2 | T_sus4 | T_7sus | T_7sus4 | T_9sus | T_7sus2b9
  | T_6 | T_minor6 | T_69 | T_m69
  | T_7s11 | T_7b13 | T_maj9s11 | T_m9b5 | T_9s11
  | T_maj7s5 | T_7alt | T_7b5 | T_7s5
  | T_augmented7 | T_augmentedMajor7

record Chord =
  root :: NoteName
  type :: ChordType
  "notes" :: "int list"
  name :: string

fun noteStr :: "NoteName \<Rightarrow> string" where
  "noteStr N_C = ''C''"
| "noteStr N_Cs = ''C#''"
| "noteStr N_Db = ''Db''"
| "noteStr N_D = ''D''"
| "noteStr N_Ds = ''D#''"
| "noteStr N_Eb = ''Eb''"
| "noteStr N_E = ''E''"
| "noteStr N_F = ''F''"
| "noteStr N_Fs = ''F#''"
| "noteStr N_Gb = ''Gb''"
| "noteStr N_G = ''G''"
| "noteStr N_Gs = ''G#''"
| "noteStr N_Ab = ''Ab''"
| "noteStr N_A = ''A''"
| "noteStr N_As = ''A#''"
| "noteStr N_Bb = ''Bb''"
| "noteStr N_B = ''B''"

text \<open>The half-diminished symbol of \<^verbatim>\<open>types/music.ts\<close> is U+03C6, the bytes CF 86.\<close>

definition phi :: string where
  "phi = [CHR 0xCF, CHR 0x86]"

fun chordTypeStr :: "ChordType \<Rightarrow> string" where
  "chordTypeStr T_major = ''major''"
| "chordTypeStr T_minor = ''minor''"
| "chordTypeStr T_dim = ''dim''"
| "chordTypeStr T_augmented = ''augmented''"
| "chordTypeStr T_5 = ''5''"
| "chordTypeStr T_major7 = ''major7''"
| "chordTypeStr T_minor7 = ''minor7''"
| "chordTypeStr T_7 = ''7''"
| "chordTypeStr T_dim7 = ''dim7''"
| "chordTypeStr T_m7b5 = ''m7b5''"
| "chordTypeStr T_phi7 = phi @ ''7''"
| "chordTypeStr T_minorMajor7 = ''minorMajor7''"
| "chordTypeStr T_major9 = ''major9''"
| "chordTypeStr T_minor9 = ''minor9''"
| "chordTypeStr T_9 = ''9''"
| "chordTypeStr T_add9 = ''add9''"
| "chordTypeStr T_7b9 = ''7b9''"
| "chordTypeStr T_7s9 = ''7#9''"
| "chordTypeStr T_dim9 = ''dim9''"
| "chordTypeStr T_aug9 = ''aug9''"
| "chordTypeStr T_11 = ''11''"
| "chordTypeStr T_m11 = ''m11''"
| "chordTypeStr T_major11 = ''major11''"
| "chordTypeStr T_13 = ''13''"
| "chordTypeStr T_13sus = ''13sus''"
| "chordTypeStr T_13b9 = ''13b9''"
| "chordTypeStr T_m11b5 = ''m11b5''"
| "chordTypeStr T_sus2 = ''sus2''"
| "chordTypeStr T_sus4 = ''sus4''"
| "chordTypeStr T_7sus = ''7sus''"
| "chordTypeStr T_7sus4 = ''7sus4''"
| "chordTypeStr T_9sus = ''9sus''"
| "chordTypeStr T_7sus2b9 = ''7sus2b9''"
| "chordTypeStr T_6 = ''6''"
| "chordTypeStr T_minor6 = ''minor6''"
| "chordTypeStr T_69 = ''69''"
| "chordTypeStr T_m69 = ''m69''"
| "chordTypeStr T_7s11 = ''7#11''"
| "chordTypeStr T_7b13 = ''7b13''"
| "chordTypeStr T_maj9s11 = ''maj9#11''"
| "chordTypeStr T_m9b5 = ''m9b5''"
| "chordTypeStr T_9s11 = ''9#11''"
| "chordTypeStr T_maj7s5 = ''maj7#5''"
| "chordTypeStr T_7alt = ''7alt''"
| "chordTypeStr T_7b5 = ''7b5''"
| "chordTypeStr T_7s5 = ''7#5''"
| "chordTypeStr T_augmented7 = ''augmented7''"
| "chordTypeStr T_augmentedMajor7 = ''augmentedMajor7''"

section \<open>JavaScript arithmetic\<close>

text \<open>
  The remainder operator \<^verbatim>\<open>%\<close> of JavaScript truncates towards zero: the result
  has the sign of the dividend (\<^verbatim>\<open>-1 % 12\<close> is \<^verbatim>\<open>-1\<close>). It is only used
  with a positive divisor here.
\<close>

definition js_rem :: "int \<Rightarrow> int \<Rightarrow> int" where
  "js_rem a b = sgn a * (\<bar>a\<bar> mod \<bar>b\<bar>)"

section \<open>Scales and chords (utils/chord-utils.ts)\<close>

fun NOTE_VALUES :: "NoteName \<Rightarrow> int" where
  "NOTE_VALUES N_C = 0"
| "NOTE_VALUES N_Cs = 1"
| "NOTE_VALUES N_Db = 1"
| "NOTE_VALUES N_D = 2"
| "NOTE_VALUES N_Ds = 3"
| "NOTE_VALUES N_Eb = 3"
| "NOTE_VALUES N_E = 4"
| "NOTE_VALUES N_F = 5"
| "NOTE_VALUES N_Fs = 6"
| "NOTE_VALUES N_Gb = 6"
| "NOTE_VALUES N_G = 7"
| "NOTE_VALUES N_Gs = 8"
| "NOTE_VALUES N_Ab = 8"
| "NOTE_VALUES N_A = 9"
| "NOTE_VALUES N_As = 10"
| "NOTE_VALUES N_Bb = 10"
| "NOTE_VALUES N_B = 11"

text \<open>\<^verbatim>\<open>Object.entries(NOTE_VALUES)\<close>: the entries in the order of the object literal.\<close>

definition NOTE_VALUES_entries :: "(NoteName \<times> int) list" where
  "NOTE_VALUES_entries =
     map (\<lambda>n. (n, NOTE_VALUES n))
       [N_C, N_Cs, N_Db, N_D, N_Ds, N_Eb, N_E, N_F, N_Fs, N_Gb, N_G, N_Gs, N_Ab,
        N_A, N_As, N_Bb, N_B]"

fun SCALE_PATTERNS :: "MusicMode \<Rightarrow> int list" where
  "SCALE_PATTERNS M_major = [0, 2, 4, 5, 7, 9, 11]"
| "SCALE_PATTERNS M_minor = [0, 2, 3, 5, 7, 8, 10]"
| "SCALE_PATTERNS M_dorian = [0, 2, 3, 5, 7, 9, 10]"
| "SCALE_PATTERNS M_phrygian = [0, 1, 3, 5, 7, 8, 10]"
| "SCALE_PATTERNS M_lydian = [0, 2, 4, 6, 7, 9, 11]"
| "SCALE_PATTERNS M_mixolydian = [0, 2, 4, 5, 7, 9, 10]"
| "SCALE_PATTERNS M_locrian = [0, 1, 3, 5, 6, 8, 10]"
| "SCALE_PATTERNS M_free = [0, 1, 2, 3, 4, 5, 6, 7, 8, 9, 10, 11]"

text \<open>
  \<^verbatim>\<open>CHORD_PATTERNS\<close> is an object literal, looked up by the string of the chord
  type: an association list under the keys the source file has. The eleventh key of the
  file is not the half-diminished symbol followed by 7 but the six bytes
  C3 8F E2 80 A0 37 (U+00CF, U+2020, 7).
\<close>

definition CHORD_PATTERNS :: "(string \<times> int list) list" where
  "CHORD_PATTERNS =
    [(''major'', [0, 4, 7]),
     (''minor'', [0, 3, 7]),
     (''dim'', [0, 3, 6]),
     (''augmented'', [0, 4, 8]),
     (''5'', [0, 7]),
     (''major7'', [0, 4, 7, 11]),
     (''minor7'', [0, 3, 7, 10]),
     (''7'', [0, 4, 7, 10]),
     (''dim7'', [0, 3, 6, 9]),
     (''m7b5'', [0, 3, 6, 10]),
     ([CHR 0xC3, CHR 0x8F, CHR 0xE2, CHR 0x80, CHR 0xA0, CHR 0x37], [0, 3, 6, 10]),
     (''minorMajor7'', [0, 3, 7, 11]),
     (''major9'', [0, 4, 7, 11, 14]),
     (''minor9'', [0, 3, 7, 10, 14]),
     (''9'', [0, 4, 7, 10, 14]),
     (''add9'', [0, 4, 7, 14]),
     (''7b9'', [0, 4, 7, 10, 13]),
     (''7#9'', [0, 4, 7, 10, 15]),
     (''dim9'', [0, 3, 6, 9, 14]),
     (''aug9'', [0, 4, 8, 10, 14]),
     (''11'', [0, 4, 7, 10, 14, 17]),
     (''m11'', [0, 3, 7, 10, 14, 17]),
     (''major11'', [0, 4, 7, 11, 14, 17]),
     (''13'', [0, 4, 7, 10, 14, 21]),
     (''13sus'', [0, 5, 7, 10, 14, 21]),
     (''13b9'', [0, 4, 7, 10, 13, 21]),
     (''m11b5'', [0, 3, 6, 10, 14, 17]),
     (''sus2'', [0, 2, 7]),
     (''sus4'', [0, 5, 7]),
     (''7sus'', [0, 5, 7, 10]),
     (''7sus4'', [0, 5, 7, 10]),
     (''9sus'', [0, 5, 7, 10, 14]),
     (''7sus2b9'', [0, 2, 7, 10, 13]),
     (''6'', [0, 4, 7, 9]),
     (''minor6'', [0, 3, 7, 9]),
     (''69'', [0, 4, 7, 9, 14]),
     (''m69'', [0, 3, 7, 9, 14]),
     (''7#11'', [0, 4, 7, 10, 18]),
     (''7b13'', [0, 4, 7, 10, 20]),
     (''maj9#11'', [0, 4, 7, 11, 14, 18]),
     (''m9b5'', [0, 3, 6, 10, 14]),
     (''9#11'', [0, 4, 7, 10, 14, 18]),
     (''maj7#5'', [0, 4, 8, 11]),
     (''7alt'', [0, 4, 8, 10, 15]),
     (''7b5'', [0, 4, 6, 10]),
     (''7#5'', [0, 4, 8, 10]),
     (''augmented7'', [0, 4, 8, 10]),
     (''augmentedMajor7'', [0, 4, 8, 11])]"

text \<open>\<^verbatim>\<open>CHORD_PATTERNS[type]\<close>: \<open>None\<close> is \<^verbatim>\<open>undefined\<close>.\<close>

definition chordPattern :: "ChordType \<Rightarrow> int list option" where
  "chordPattern t = map_of CHORD_PATTERNS (chordTypeStr t)"

text \<open>
  \<^verbatim>\<open>getScaleNotes\<close>: for each interval of the pattern, the first entry of
  \<^verbatim>\<open>NOTE_VALUES\<close> with that value whose name has no \<^verbatim>\<open>b\<close>; the note is pushed
  when one is found.
\<close>

definition findNote :: "int \<Rightarrow> NoteName option" where
  "findNote noteValue =
     map_option fst
       (find (\<lambda>(note, v). v = noteValue \<and> CHR ''b'' \<notin> set (noteStr note)) NOTE_VALUES_entries)"

definition getScaleNotes :: "NoteName \<Rightarrow> MusicMode \<Rightarrow> NoteName list" where
  "getScaleNotes rt md =
     (let rootValue = NOTE_VALUES rt; pattern = SCALE_PATTERNS md
      in concat (map (\<lambda>interval.
           (case findNote (js_rem (rootValue + interval) 12) of
              Some note \<Rightarrow> [note]
            | None \<Rightarrow> [])) pattern))"

text \<open>\<^verbatim>\<open>createChord\<close>: \<open>None\<close> is the \<^verbatim>\<open>null\<close> returned when the type has no pattern.\<close>

definition createChord :: "NoteName \<Rightarrow> ChordType \<Rightarrow> Chord option" where
  "createChord rt t =
     (let rootValue = NOTE_VALUES rt
      in case chordPattern t of
           None \<Rightarrow> None
         | Some pattern \<Rightarrow>
             Some \<lparr> root = rt, type = t,
                    notes = map (\<lambda>interval. rootValue + interval + 60) pattern,
                    name = noteStr rt @ chordTypeStr t \<rparr>)"

section \<open>JavaScript arrays and objects\<close>

text \<open>\<^verbatim>\<open>xs.indexOf(x)\<close>: the first index of \<open>x\<close>, or \<open>-1\<close>.\<close>

fun indexOf :: "'a list \<Rightarrow> 'a \<Rightarrow> int" where
  "indexOf [] x = - 1"
| "indexOf (y # ys) x =
     (if y = x then 0 else (let i = indexOf ys x in if i = - 1 then - 1 else i + 1))"

text \<open>\<^verbatim>\<open>xs[i]\<close>: \<open>None\<close> is the \<^verbatim>\<open>undefined\<close> read outside the array.\<close>

definition at :: "'a list \<Rightarrow> int \<Rightarrow> 'a option" where
  "at xs i = (if 0 \<le> i \<and> i < int (length xs) then Some (xs ! nat i) else None)"

text \<open>\<^verbatim>\<open>m[k] || 0\<close> on an object of numbers.\<close>

definition orZero :: "int option \<Rightarrow> int" where
  "orZero v = (case v of Some i \<Rightarrow> i | None \<Rightarrow> 0)"

section \<open>The keyboard component (components/PianoXL.tsx)\<close>

definition ALL_CHORD_TYPES :: "ChordType list" where
  "ALL_CHORD_TYPES =
    [T_major, T_minor, T_dim, T_augmented, T_5,
     T_major7, T_minor7, T_7, T_dim7, T_m7b5, T_phi7, T_minorMajor7,
     T_major9, T_minor9, T_9, T_add9, T_7b9, T_7s9, T_dim9, T_aug9,
     T_11, T_m11, T_major11, T_13, T_13sus, T_13b9, T_m11b5,
     T_sus2, T_sus4, T_7sus, T_7sus4, T_9sus, T_7sus2b9,
     T_6, T_minor6, T_69, T_m69,
     T_7s11, T_7b13, T_maj9s11, T_m9b5, T_9s11,
     T_maj7s5, T_7alt, T_7b5, T_7s5,
     T_augmented7, T_augmentedMajor7]"

text \<open>
  The two diatonic tables are objects under the keys \<^verbatim>\<open>'1'\<close> to \<^verbatim>\<open>'7'\<close>, read
  with \<^verbatim>\<open>(scaleIndex + 1).toString()\<close>: here under the number itself.
\<close>

definition MAJOR_SCALE_CHORDS :: "int \<Rightarrow> ChordType list option" where
  "MAJOR_SCALE_CHORDS d =
     (if d = 1 then Some [T_major, T_major7, T_major9, T_add9]
      else if d = 2 then Some [T_minor, T_minor7, T_minor9]
      else if d = 3 then Some [T_minor, T_minor7, T_minor9]
      else if d = 4 then Some [T_major, T_major7, T_major9, T_add9]
      else if d = 5 then Some [T_major, T_7, T_9]
      else if d = 6 then Some [T_minor, T_minor7, T_minor9]
      else if d = 7 then Some [T_dim, T_dim7, T_m7b5]
      else None)"

definition MINOR_SCALE_CHORDS :: "int \<Rightarrow> ChordType list option" where
  "MINOR_SCALE_CHORDS d =
     (if d = 1 then Some [T_minor, T_minor7, T_minor9, T_m11]
      else if d = 2 then Some [T_dim, T_dim7, T_m7b5]
      else if d = 3 then Some [T_major, T_major7, T_add9]
      else if d = 4 then Some [T_minor, T_minor7, T_minor9]
      else if d = 5 then Some [T_minor, T_minor7, T_minor9]
      else if d = 6 then Some [T_major, T_major7, T_add9]
      else if d = 7 then Some [T_major, T_7, T_9]
      else None)"

fun sharpToFlatMap :: "NoteName \<Rightarrow> NoteName" where
  "sharpToFlatMap N_C = N_C"
| "sharpToFlatMap N_Cs = N_Db"
| "sharpToFlatMap N_Db = N_Db"
| "sharpToFlatMap N_D = N_D"
| "sharpToFlatMap N_Ds = N_Eb"
| "sharpToFlatMap N_Eb = N_Eb"
| "sharpToFlatMap N_E = N_E"
| "sharpToFlatMap N_F = N_F"
| "sharpToFlatMap N_Fs = N_Gb"
| "sharpToFlatMap N_Gb = N_Gb"
| "sharpToFlatMap N_G = N_G"
| "sharpToFlatMap N_Gs = N_Ab"
| "sharpToFlatMap N_Ab = N_Ab"
| "sharpToFlatMap N_A = N_A"
| "sharpToFlatMap N_As = N_Bb"
| "sharpToFlatMap N_Bb = N_Bb"
| "sharpToFlatMap N_B = N_B"

text \<open>The twelve sharp spellings, the local array of the component's functions.\<close>

definition allNotes :: "NoteName list" where
  "allNotes = [N_C, N_Cs, N_D, N_Ds, N_E, N_F, N_Fs, N_G, N_Gs, N_A, N_As, N_B]"

text \<open>
  \<^verbatim>\<open>getBassNote\<close>, the suffix of the label. A \<^verbatim>\<open>bassIndex\<close> outside the array reads
  \<^verbatim>\<open>undefined\<close>, which the template string prints as such.
\<close>

definition getBassNote :: "NoteName \<Rightarrow> int option \<Rightarrow> string" where
  "getBassNote rt bassOffset =
     (case bassOffset of
        None \<Rightarrow> []
      | Some off \<Rightarrow>
          if off = 0 then []
          else let rootIndex = indexOf allNotes rt
               in if rootIndex = - 1 then []
                  else let bassIndex = js_rem (rootIndex + off) 12
                       in ''/'' @ (case at allNotes bassIndex of
                                     Some n \<Rightarrow> noteStr n
                                   | None \<Rightarrow> ''undefined''))"

text \<open>
  The props and the state of the component in one record. A handler reads the values of
  the render it was created in; the state it sets is the state of the next render.
\<close>

record PianoXL =
  selectedKey :: NoteName
  mode :: MusicMode
  octave :: int
  inversion :: int
  selectedSound :: InstrumentType
  useFlats :: bool
  selectedBassOffset :: "int option"
  scaleNotes :: "NoteName list"
  currentChord :: "Chord option"
  lastPressedNote :: "NoteName option"
  chordTypeIndices :: "NoteName \<rightharpoonup> int"
  prevMode :: MusicMode

text \<open>The calls to the audio functions and to the callbacks of the props, in order.\<close>

datatype event =
  PlayChord "int list" InstrumentType
  | StopChord
  | PlayBassNote int
  | OnChordChange "Chord option"
  | OnScaleNotesChange "NoteName list"
  | OnNoteSelect NoteName

datatype direction = Up | Down

subsection \<open>The effect on a change of key or mode\<close>

definition addDefaults :: "(NoteName \<rightharpoonup> int) \<Rightarrow> NoteName list \<Rightarrow> (NoteName \<rightharpoonup> int)" where
  "addDefaults indices newlyAvailableNotes =
     foldl (\<lambda>updatedIndices note.
              if updatedIndices note = None then updatedIndices(note \<mapsto> 0)
              else updatedIndices)
       indices newlyAvailableNotes"

definition modeEffect :: "PianoXL \<Rightarrow> PianoXL \<times> event list" where
  "modeEffect st =
     (let (st1, ev1) =
        (if mode st = M_free \<and> mode st \<noteq> prevMode st then
           (let prevScaleNotes = getScaleNotes (selectedKey st) (prevMode st);
                newlyAvailableNotes = filter (\<lambda>note. note \<notin> set prevScaleNotes) allNotes
            in (st\<lparr> scaleNotes := allNotes,
                    chordTypeIndices :=
                      (if length newlyAvailableNotes > 0
                       then addDefaults (chordTypeIndices st) newlyAvailableNotes
                       else chordTypeIndices st) \<rparr>,
                [OnScaleNotesChange allNotes]))
         else if prevMode st = M_free \<and> mode st \<noteq> M_free then
           (let newScaleNotes = getScaleNotes (selectedKey st) (mode st)
            in (st\<lparr> scaleNotes := newScaleNotes, chordTypeIndices := Map.empty \<rparr>,
                [OnScaleNotesChange newScaleNotes]))
         else if mode st \<noteq> prevMode st then
           (let newScaleNotes = getScaleNotes (selectedKey st) (mode st)
            in (st\<lparr> scaleNotes := newScaleNotes, chordTypeIndices := Map.empty \<rparr>,
                [OnScaleNotesChange newScaleNotes]))
         else
           (let newScaleNotes = getScaleNotes (selectedKey st) (mode st)
            in (st\<lparr> scaleNotes := newScaleNotes \<rparr>, [OnScaleNotesChange newScaleNotes])));
          (st2, ev2) =
        (if mode st \<noteq> prevMode st
         then (st1\<lparr> currentChord := None \<rparr>, [OnChordChange None])
         else (st1, []))
      in (st2\<lparr> prevMode := mode st \<rparr>, ev1 @ ev2))"

subsection \<open>Chord types and labels\<close>

definition convertNoteDisplay :: "PianoXL \<Rightarrow> NoteName \<Rightarrow> NoteName" where
  "convertNoteDisplay st note =
     (if mode st = M_free \<and> useFlats st then sharpToFlatMap note else note)"

definition getAvailableChordTypes :: "PianoXL \<Rightarrow> NoteName \<Rightarrow> ChordType list" where
  "getAvailableChordTypes st note =
     (if mode st = M_free then ALL_CHORD_TYPES
      else if note \<notin> set (scaleNotes st) then []
      else let scaleIndex = indexOf (scaleNotes st) note;
               scaleDegree = scaleIndex + 1
           in if mode st = M_minor
              then (case MINOR_SCALE_CHORDS scaleDegree of Some ts \<Rightarrow> ts | None \<Rightarrow> [])
              else (case MAJOR_SCALE_CHORDS scaleDegree of Some ts \<Rightarrow> ts | None \<Rightarrow> []))"

definition getCurrentChordType :: "PianoXL \<Rightarrow> NoteName \<Rightarrow> ChordType" where
  "getCurrentChordType st note =
     (if mode st = M_free then
        (let currentIndex = orZero (chordTypeIndices st note)
         in case at ALL_CHORD_TYPES currentIndex of Some t \<Rightarrow> t | None \<Rightarrow> T_major)
      else
        (let availableTypes = getAvailableChordTypes st note;
             currentIndex = orZero (chordTypeIndices st note)
         in if length availableTypes = 0 then T_major
            else (case at availableTypes (js_rem currentIndex (int (length availableTypes))) of
                    Some t \<Rightarrow> t
                  | None \<Rightarrow> T_major)))"

text \<open>The \<^verbatim>\<open>switch\<close> of \<^verbatim>\<open>getChordName\<close>: what each chord type adds to the note.\<close>

fun chordSuffix :: "ChordType \<Rightarrow> string" where
  "chordSuffix T_major = []"
| "chordSuffix T_minor = ''m''"
| "chordSuffix T_dim = ''dim''"
| "chordSuffix T_augmented = ''aug''"
| "chordSuffix T_5 = ''5''"
| "chordSuffix T_major7 = ''maj7''"
| "chordSuffix T_minor7 = ''m7''"
| "chordSuffix T_7 = ''7''"
| "chordSuffix T_dim7 = ''dim7''"
| "chordSuffix T_m7b5 = ''m7b5''"
| "chordSuffix T_phi7 = phi @ ''7''"
| "chordSuffix T_minorMajor7 = ''mMaj7''"
| "chordSuffix T_major9 = ''maj9''"
| "chordSuffix T_minor9 = ''m9''"
| "chordSuffix T_9 = ''9''"
| "chordSuffix T_add9 = ''add9''"
| "chordSuffix T_7b9 = ''7b9''"
| "chordSuffix T_7s9 = ''7#9''"
| "chordSuffix T_dim9 = ''dim9''"
| "chordSuffix T_aug9 = ''aug9''"
| "chordSuffix T_11 = ''11''"
| "chordSuffix T_m11 = ''m11''"
| "chordSuffix T_major11 = ''maj11''"
| "chordSuffix T_13 = ''13''"
| "chordSuffix T_13sus = ''13sus''"
| "chordSuffix T_13b9 = ''13b9''"
| "chordSuffix T_m11b5 = ''m11b5''"
| "chordSuffix T_sus2 = ''sus2''"
| "chordSuffix T_sus4 = ''sus4''"
| "chordSuffix T_7sus = ''7sus''"
| "chordSuffix T_7sus4 = ''7sus4''"
| "chordSuffix T_9sus = ''9sus''"
| "chordSuffix T_7sus2b9 = ''7sus2b9''"
| "chordSuffix T_6 = ''6''"
| "chordSuffix T_minor6 = ''m6''"
| "chordSuffix T_69 = ''69''"
| "chordSuffix T_m69 = ''m69''"
| "chordSuffix T_7s11 = ''7#11''"
| "chordSuffix T_7b13 = ''7b13''"
| "chordSuffix T_maj9s11 = ''maj9#11''"
| "chordSuffix T_m9b5 = ''m9b5''"
| "chordSuffix T_9s11 = ''9#11''"
| "chordSuffix T_maj7s5 = ''maj7#5''"
| "chordSuffix T_7alt = ''7alt''"
| "chordSuffix T_7b5 = ''7b5''"
| "chordSuffix T_7s5 = ''7#5''"
| "chordSuffix T_augmented7 = ''aug7''"
| "chordSuffix T_augmentedMajor7 = ''augMaj7''"

definition getChordName :: "PianoXL \<Rightarrow> NoteName \<Rightarrow> string" where
  "getChordName st note =
     (if mode st \<noteq> M_free \<and> note \<notin> set (scaleNotes st) then []
      else let chordType = getCurrentChordType st note;
               nm = noteStr (convertNoteDisplay st note) @ chordSuffix chordType
           in if lastPressedNote st = Some note \<and> selectedBassOffset st \<noteq> None
              then nm @ getBassNote note (selectedBassOffset st)
              else nm)"

subsection \<open>Octave and inversion\<close>

text \<open>
  One round of the inversion loop, as the array operations of the source:
  \<^verbatim>\<open>a[0] += 12; a.push(a.shift())\<close> and
  \<^verbatim>\<open>a[a.length - 1] -= 12; a.unshift(a.pop())\<close>. On the empty array, which no chord
  pattern gives, JavaScript leaves one element that is not a number; here it is the one
  unspecified element \<open>hd []\<close> or \<open>last []\<close>.
\<close>

definition invertUp :: "int list \<Rightarrow> int list" where
  "invertUp modifiedNotes =
     (let a = modifiedNotes[0 := modifiedNotes ! 0 + 12] in tl a @ [hd a])"

definition invertDown :: "int list \<Rightarrow> int list" where
  "invertDown modifiedNotes =
     (let n = length modifiedNotes;
          a = modifiedNotes[n - 1 := modifiedNotes ! (n - 1) - 12]
      in last a # butlast a)"

definition applyInversion :: "int \<Rightarrow> int list \<Rightarrow> int list" where
  "applyInversion amount modifiedNotes =
     (if amount \<noteq> 0
      then ((if amount > 0 then invertUp else invertDown) ^^ nat \<bar>amount\<bar>) modifiedNotes
      else modifiedNotes)"

definition applyOctave :: "int \<Rightarrow> int list \<Rightarrow> int list" where
  "applyOctave oct chordNotes =
     map (\<lambda>note. if oct \<noteq> 0 then note + 12 * oct else note) chordNotes"

subsection \<open>Pressing a key\<close>

text \<open>
  \<^verbatim>\<open>handleKeyPress\<close>. The handler sets the last pressed note first, and then compares
  the note with \<^verbatim>\<open>lastPressedNote\<close>, which is still the value of the render the
  handler belongs to: the state before the press. So does \<^verbatim>\<open>getChordName\<close>.
\<close>

definition bassEvents :: "PianoXL \<Rightarrow> NoteName \<Rightarrow> Chord \<Rightarrow> event list" where
  "bassEvents st note chord =
     (if selectedBassOffset st \<noteq> None \<and> Some note = lastPressedNote st then
        (let rootIndex = indexOf allNotes note
         in if rootIndex \<noteq> - 1 then
              (let bassNote =
                 (if selectedBassOffset st = Some 0 then hd (notes chord) - 12
                  else 48 + js_rem (rootIndex + the (selectedBassOffset st)) 12)
               in [PlayBassNote bassNote])
            else [])
      else [])"

definition handleKeyPress :: "PianoXL \<Rightarrow> NoteName \<Rightarrow> PianoXL \<times> event list" where
  "handleKeyPress st note =
     (if mode st \<noteq> M_free \<and> note \<notin> set (scaleNotes st) then (st, [])
      else
        (let st1 = st\<lparr> lastPressedNote := Some note \<rparr>;
             chordType = getCurrentChordType st note
         in case createChord note chordType of
              None \<Rightarrow> (st1, [])
            | Some chord \<Rightarrow>
                (let modifiedNotes =
                       applyInversion (inversion st) (applyOctave (octave st) (notes chord));
                     chordName = getChordName st note;
                     modifiedChord = chord\<lparr> notes := modifiedNotes, name := chordName \<rparr>
                 in (st1\<lparr> currentChord := Some modifiedChord \<rparr>,
                     [PlayChord modifiedNotes (selectedSound st)]
                     @ bassEvents st note chord
                     @ [OnChordChange (Some modifiedChord), OnNoteSelect note]))))"

subsection \<open>Cycling the chord type of the last pressed note\<close>

definition adjustLastChordType :: "PianoXL \<Rightarrow> direction \<Rightarrow> PianoXL" where
  "adjustLastChordType st dir =
     (case lastPressedNote st of
        None \<Rightarrow> st
      | Some lastNote \<Rightarrow>
          (let availableTypes =
                 (if mode st = M_free then ALL_CHORD_TYPES
                  else getAvailableChordTypes st lastNote)
           in if mode st \<noteq> M_free \<and> lastNote \<notin> set (scaleNotes st) then st
              else if length availableTypes = 0 then st
              else
                (let currentIndex = orZero (chordTypeIndices st lastNote);
                     len = int (length availableTypes);
                     newIndex =
                       (if dir = Up then js_rem (currentIndex + 1) len
                        else js_rem (currentIndex - 1 + len) len)
                 in st\<lparr> chordTypeIndices := (chordTypeIndices st)(lastNote \<mapsto> newIndex) \<rparr>)))"

subsection \<open>The first render\<close>

text \<open>
  The state of \<^verbatim>\<open>useState\<close> at the first render, under the default props, and the
  state once the effect has run for the first time.
\<close>

definition initial :: "NoteName \<Rightarrow> MusicMode \<Rightarrow> PianoXL" where
  "initial k m =
     \<lparr> selectedKey = k, mode = m, octave = 0, inversion = 0, selectedSound = Piano,
       useFlats = False, selectedBassOffset = None, scaleNotes = [], currentChord = None,
       lastPressedNote = None, chordTypeIndices = Map.empty, prevMode = m \<rparr>"

definition mounted :: "NoteName \<Rightarrow> MusicMode \<Rightarrow> PianoXL" where
  "mounted k m = fst (modeEffect (initial k m))"

subsection \<open>Reading the calls\<close>

text \<open>The pitches given to \<^verbatim>\<open>playBassNote\<close> and the notes given to \<^verbatim>\<open>playChord\<close>.\<close>

definition bassNotesPlayed :: "event list \<Rightarrow> int list" where
  "bassNotesPlayed evs =
     concat (map (\<lambda>e. case e of PlayBassNote b \<Rightarrow> [b] | _ \<Rightarrow> []) evs)"

definition chordsPlayed :: "event list \<Rightarrow> int list list" where
  "chordsPlayed evs =
     concat (map (\<lambda>e. case e of PlayChord ns sound \<Rightarrow> [ns] | _ \<Rightarrow> []) evs)"

section \<open>Properties\<close>

subsection \<open>Auxiliary facts\<close>

lemma js_rem_nonneg: "0 \<le> a \<Longrightarrow> 0 < b \<Longrightarrow> js_rem a b = a mod b"
  by (simp add: js_rem_def sgn_if)

lemma findNote_sharp:
  "findNote 0 = Some N_C" "findNote 1 = Some N_Cs" "findNote 2 = Some N_D"
  "findNote 3 = Some N_Ds" "findNote 4 = Some N_E" "findNote 5 = Some N_F"
  "findNote 6 = Some N_Fs" "findNote 7 = Some N_G" "findNote 8 = Some N_Gs"
  "findNote 9 = Some N_A" "findNote 10 = Some N_As" "findNote 11 = Some N_B"
  by (simp_all add: findNote_def NOTE_VALUES_entries_def)

lemma getScaleNotes_C_major: "getScaleNotes N_C M_major = [N_C, N_D, N_E, N_F, N_G, N_A, N_B]"
  by (simp add: getScaleNotes_def js_rem_def findNote_sharp)

lemma mounted_C_major:
  "mounted N_C M_major =
     \<lparr> selectedKey = N_C, mode = M_major, octave = 0, inversion = 0, selectedSound = Piano,
       useFlats = False, selectedBassOffset = None,
       scaleNotes = [N_C, N_D, N_E, N_F, N_G, N_A, N_B], currentChord = None,
       lastPressedNote = None, chordTypeIndices = Map.empty, prevMode = M_major \<rparr>"
  by (simp add: mounted_def initial_def modeEffect_def getScaleNotes_C_major Let_def)

lemma addDefaults_apply:
  "addDefaults m ns n = (if n \<in> set ns \<and> m n = None then Some 0 else m n)"
  unfolding addDefaults_def
  by (induction ns arbitrary: m) auto

lemma at_0: "xs \<noteq> [] \<Longrightarrow> at xs 0 = Some (hd xs)"
  by (cases xs) (simp_all add: at_def)

lemma ALL_CHORD_TYPES_length: "length ALL_CHORD_TYPES = 48"
  by (simp add: ALL_CHORD_TYPES_def)

lemma ALL_CHORD_TYPES_nonempty: "ALL_CHORD_TYPES \<noteq> []"
  using ALL_CHORD_TYPES_length by auto

lemma getAvailable_nonempty_in_scale:
  "getAvailableChordTypes st note \<noteq> [] \<Longrightarrow> mode st = M_free \<or> note \<in> set (scaleNotes st)"
  by (auto simp add: getAvailableChordTypes_def split: if_splits)

lemma getAvailable_free: "mode st = M_free \<Longrightarrow> getAvailableChordTypes st note = ALL_CHORD_TYPES"
  by (simp add: getAvailableChordTypes_def)

lemma js_rem_0: "js_rem 0 b = 0"
  by (simp add: js_rem_def)

lemma getCurrentChordType_no_index:
  "chordTypeIndices st note = None \<Longrightarrow>
   getCurrentChordType st note =
     (case getAvailableChordTypes st note of [] \<Rightarrow> T_major | t # ts \<Rightarrow> t)"
proof -
  assume n: "chordTypeIndices st note = None"
  show ?thesis
  proof (cases "getAvailableChordTypes st note")
    case Nil
    then have "mode st \<noteq> M_free"
      using getAvailable_free [of st "note"] ALL_CHORD_TYPES_nonempty by auto
    with Nil n show ?thesis
      by (simp add: getCurrentChordType_def orZero_def)
  next
    case (Cons t ts)
    then have a: "at (getAvailableChordTypes st note) 0 = Some t"
      by (simp add: at_def)
    show ?thesis
    proof (cases "mode st = M_free")
      case True
      with a have "at ALL_CHORD_TYPES 0 = Some t" by (simp add: getAvailable_free)
      with True n Cons show ?thesis
        by (simp add: getCurrentChordType_def orZero_def)
    next
      case False
      with n Cons a show ?thesis
        by (simp add: getCurrentChordType_def orZero_def js_rem_0)
    qed
  qed
qed

lemma modeEffect_indices:
  "chordTypeIndices (fst (modeEffect st)) =
     (if mode st = M_free \<and> prevMode st \<noteq> M_free
      then addDefaults (chordTypeIndices st)
             (filter (\<lambda>note. note \<notin> set (getScaleNotes (selectedKey st) (prevMode st))) allNotes)
      else if mode st \<noteq> prevMode st then Map.empty
      else chordTypeIndices st)"
  by (auto simp add: modeEffect_def Let_def addDefaults_def split: prod.splits)

lemma getScaleNotes_C_minor: "getScaleNotes N_C M_minor = [N_C, N_D, N_Ds, N_F, N_G, N_Gs, N_As]"
  by (simp add: getScaleNotes_def js_rem_def findNote_sharp)

lemma getScaleNotes_C_free:
  "getScaleNotes N_C M_free = [N_C, N_Cs, N_D, N_Ds, N_E, N_F, N_Fs, N_G, N_Gs, N_A, N_As, N_B]"
  by (simp add: getScaleNotes_def js_rem_def findNote_sharp)

lemma mounted_C_free:
  "mounted N_C M_free =
     \<lparr> selectedKey = N_C, mode = M_free, octave = 0, inversion = 0, selectedSound = Piano,
       useFlats = False, selectedBassOffset = None,
       scaleNotes = [N_C, N_Cs, N_D, N_Ds, N_E, N_F, N_Fs, N_G, N_Gs, N_A, N_As, N_B],
       currentChord = None, lastPressedNote = None, chordTypeIndices = Map.empty,
       prevMode = M_free \<rparr>"
  by (simp add: mounted_def initial_def modeEffect_def getScaleNotes_C_free Let_def)

text \<open>
  Claim C2. When the mode becomes free from another mode, the effect keeps every entry of
  the chord cursor, gives index 0 to each of the twelve notes that is outside the previous
  scale and has no entry, and leaves the notes of the previous scale as they are. When
  the mode changes to a mode other than free, from free or from another mode, the cursor
  is emptied, and every note is at the first chord type of its list.
\<close>

theorem C2_mode_transition_reset:
  "(mode st = M_free \<and> prevMode st \<noteq> M_free \<longrightarrow>
      (\<forall>note i. chordTypeIndices st note = Some i \<longrightarrow>
         chordTypeIndices (fst (modeEffect st)) note = Some i)
    \<and> (\<forall>note \<in> set allNotes.
         note \<notin> set (getScaleNotes (selectedKey st) (prevMode st))
         \<and> chordTypeIndices st note = None \<longrightarrow>
         chordTypeIndices (fst (modeEffect st)) note = Some 0)
    \<and> (\<forall>note \<in> set (getScaleNotes (selectedKey st) (prevMode st)).
         chordTypeIndices (fst (modeEffect st)) note = chordTypeIndices st note))
   \<and> (mode st \<noteq> M_free \<and> mode st \<noteq> prevMode st \<longrightarrow>
        chordTypeIndices (fst (modeEffect st)) = Map.empty
      \<and> (\<forall>note. getCurrentChordType (fst (modeEffect st)) note =
            (case getAvailableChordTypes (fst (modeEffect st)) note of
               [] \<Rightarrow> T_major | t # ts \<Rightarrow> t)))"
proof (intro conjI impI)
  assume a: "mode st = M_free \<and> prevMode st \<noteq> M_free"
  then show "\<forall>note i. chordTypeIndices st note = Some i \<longrightarrow>
         chordTypeIndices (fst (modeEffect st)) note = Some i"
    by (simp add: modeEffect_indices addDefaults_apply)
  from a show "\<forall>note \<in> set allNotes.
         note \<notin> set (getScaleNotes (selectedKey st) (prevMode st))
         \<and> chordTypeIndices st note = None \<longrightarrow>
         chordTypeIndices (fst (modeEffect st)) note = Some 0"
    by (simp add: modeEffect_indices addDefaults_apply)
  from a show "\<forall>note \<in> set (getScaleNotes (selectedKey st) (prevMode st)).
         chordTypeIndices (fst (modeEffect st)) note = chordTypeIndices st note"
    by (simp add: modeEffect_indices addDefaults_apply)
next
  assume b: "mode st \<noteq> M_free \<and> mode st \<noteq> prevMode st"
  then show e: "chordTypeIndices (fst (modeEffect st)) = Map.empty"
    by (simp add: modeEffect_indices)
  show "\<forall>note. getCurrentChordType (fst (modeEffect st)) note =
            (case getAvailableChordTypes (fst (modeEffect st)) note of
               [] \<Rightarrow> T_major | t # ts \<Rightarrow> t)"
    using e by (simp add: getCurrentChordType_no_index)
qed

theorem C2_mode_transition_reset_witness:
  "mode ((mounted N_C M_major)\<lparr> chordTypeIndices := [N_C \<mapsto> 2], mode := M_free \<rparr>) = M_free
   \<and> prevMode ((mounted N_C M_major)\<lparr> chordTypeIndices := [N_C \<mapsto> 2], mode := M_free \<rparr>)
       \<noteq> M_free
   \<and> chordTypeIndices (fst (modeEffect
        ((mounted N_C M_major)\<lparr> chordTypeIndices := [N_C \<mapsto> 2], mode := M_free \<rparr>))) N_C
       = Some 2
   \<and> chordTypeIndices (fst (modeEffect
        ((mounted N_C M_major)\<lparr> chordTypeIndices := [N_C \<mapsto> 2], mode := M_free \<rparr>))) N_Cs
       = Some 0
   \<and> chordTypeIndices (fst (modeEffect
        ((mounted N_C M_major)\<lparr> chordTypeIndices := [N_C \<mapsto> 2], mode := M_free \<rparr>))) N_D
       = None
   \<and> mode ((mounted N_C M_free)\<lparr> chordTypeIndices := [N_C \<mapsto> 2], mode := M_minor \<rparr>)
       \<noteq> M_free
   \<and> mode ((mounted N_C M_free)\<lparr> chordTypeIndices := [N_C \<mapsto> 2], mode := M_minor \<rparr>)
       \<noteq> prevMode ((mounted N_C M_free)\<lparr> chordTypeIndices := [N_C \<mapsto> 2], mode := M_minor \<rparr>)
   \<and> chordTypeIndices (fst (modeEffect
        ((mounted N_C M_free)\<lparr> chordTypeIndices := [N_C \<mapsto> 2], mode := M_minor \<rparr>)))
       = Map.empty"
proof -
  let ?a = "(mounted N_C M_major)\<lparr> chordTypeIndices := [N_C \<mapsto> 2], mode := M_free \<rparr>"
  let ?b = "(mounted N_C M_free)\<lparr> chordTypeIndices := [N_C \<mapsto> 2], mode := M_minor \<rparr>"
  have ha: "mode ?a = M_free \<and> prevMode ?a \<noteq> M_free"
    by (simp add: mounted_C_major)
  have hb: "mode ?b \<noteq> M_free \<and> mode ?b \<noteq> prevMode ?b"
    by (simp add: mounted_C_free)
  have sc: "getScaleNotes (selectedKey ?a) (prevMode ?a) = [N_C, N_D, N_E, N_F, N_G, N_A, N_B]"
    by (simp add: mounted_C_major getScaleNotes_C_major)
  have ia: "chordTypeIndices ?a N_C = Some 2" "chordTypeIndices ?a N_Cs = None"
    "chordTypeIndices ?a N_D = None"
    by simp_all
  from C2_mode_transition_reset [of ?a] ha
  have keep: "\<forall>note i. chordTypeIndices ?a note = Some i \<longrightarrow>
         chordTypeIndices (fst (modeEffect ?a)) note = Some i"
    and new: "\<forall>note \<in> set allNotes.
         note \<notin> set (getScaleNotes (selectedKey ?a) (prevMode ?a))
         \<and> chordTypeIndices ?a note = None \<longrightarrow>
         chordTypeIndices (fst (modeEffect ?a)) note = Some 0"
    and old: "\<forall>note \<in> set (getScaleNotes (selectedKey ?a) (prevMode ?a)).
         chordTypeIndices (fst (modeEffect ?a)) note = chordTypeIndices ?a note"
    by blast+
  from keep ia(1) have 1: "chordTypeIndices (fst (modeEffect ?a)) N_C = Some 2"
    by blast
  have "N_Cs \<in> set allNotes" by (simp add: allNotes_def)
  with new have "N_Cs \<notin> set (getScaleNotes (selectedKey ?a) (prevMode ?a))
         \<and> chordTypeIndices ?a N_Cs = None \<longrightarrow>
         chordTypeIndices (fst (modeEffect ?a)) N_Cs = Some 0"
    by blast
  then have 2: "chordTypeIndices (fst (modeEffect ?a)) N_Cs = Some 0"
    unfolding sc using ia(2) by simp
  have "N_D \<in> set (getScaleNotes (selectedKey ?a) (prevMode ?a))"
    unfolding sc by simp
  with old have "chordTypeIndices (fst (modeEffect ?a)) N_D = chordTypeIndices ?a N_D"
    by blast
  with ia(3) have 3: "chordTypeIndices (fst (modeEffect ?a)) N_D = None" by simp
  from C2_mode_transition_reset [of ?b] hb
  have 4: "chordTypeIndices (fst (modeEffect ?b)) = Map.empty"
    by blast
  from ha hb 1 2 3 4 show ?thesis by blast
qed

text \<open>
  Claim C9. In a mode other than free, pressing a note outside the scale returns at the
  guard of the handler: the state is unchanged and nothing is called; the note has no
  chord type available and an empty label.
\<close>

theorem C9_out_of_scale_press_is_noop:
  assumes "mode st \<noteq> M_free" and "note \<notin> set (scaleNotes st)"
  shows "handleKeyPress st note = (st, [])
       \<and> getAvailableChordTypes st note = []
       \<and> getChordName st note = []"
  using assms by (simp add: handleKeyPress_def getAvailableChordTypes_def getChordName_def)

theorem C9_out_of_scale_press_is_noop_witness:
  "mode (mounted N_C M_major) \<noteq> M_free
   \<and> N_Cs \<notin> set (scaleNotes (mounted N_C M_major))
   \<and> handleKeyPress (mounted N_C M_major) N_Cs = (mounted N_C M_major, [])
   \<and> getAvailableChordTypes (mounted N_C M_major) N_Cs = []
   \<and> getChordName (mounted N_C M_major) N_Cs = []"
proof -
  have m: "mode (mounted N_C M_major) \<noteq> M_free"
    by (simp add: mounted_C_major)
  have n: "N_Cs \<notin> set (scaleNotes (mounted N_C M_major))"
    by (simp add: mounted_C_major)
  from C9_out_of_scale_press_is_noop [OF m n] m n show ?thesis by simp
qed

lemma chordPattern_major: "chordPattern T_major = Some [0, 4, 7]"
  by (simp add: chordPattern_def CHORD_PATTERNS_def)

lemma pressed_C_major:
  "handleKeyPress (mounted N_C M_major) N_C =
     (\<lparr> selectedKey = N_C, mode = M_major, octave = 0, inversion = 0, selectedSound = Piano,
        useFlats = False, selectedBassOffset = None,
        scaleNotes = [N_C, N_D, N_E, N_F, N_G, N_A, N_B],
        currentChord =
          Some \<lparr> root = N_C, type = T_major, notes = [60, 64, 67], name = ''C'' \<rparr>,
        lastPressedNote = Some N_C, chordTypeIndices = Map.empty, prevMode = M_major \<rparr>,
      [PlayChord [60, 64, 67] Piano,
       OnChordChange (Some \<lparr> root = N_C, type = T_major, notes = [60, 64, 67], name = ''C'' \<rparr>),
       OnNoteSelect N_C])"
  by (simp add: mounted_C_major handleKeyPress_def getCurrentChordType_def
      getAvailableChordTypes_def MAJOR_SCALE_CHORDS_def orZero_def js_rem_def at_def
      createChord_def chordPattern_major applyInversion_def applyOctave_def bassEvents_def
      getChordName_def convertNoteDisplay_def Let_def)

text \<open>
  The indices the component stores are never negative: the cursor is empty at the first
  render, a key press leaves it as it is, and the effect and the step of the chord type
  keep every index at 0 or above.
\<close>

lemma js_rem_nonneg_range: "0 \<le> a \<Longrightarrow> 0 < b \<Longrightarrow> 0 \<le> js_rem a b \<and> js_rem a b < b"
  by (simp add: js_rem_nonneg)

lemma orZero_nonneg:
  "\<forall>n i. m n = Some i \<longrightarrow> 0 \<le> i \<Longrightarrow> 0 \<le> orZero (m k)"
  by (cases "m k") (auto simp add: orZero_def)

lemma adjust_indices_nonneg:
  assumes "\<forall>n i. chordTypeIndices st n = Some i \<longrightarrow> 0 \<le> i"
  shows "\<forall>n i. chordTypeIndices (adjustLastChordType st d) n = Some i \<longrightarrow> 0 \<le> i"
proof (cases "lastPressedNote st")
  case None
  with assms show ?thesis by (simp add: adjustLastChordType_def)
next
  case (Some lastNote)
  let ?ts = "getAvailableChordTypes st lastNote"
  let ?c = "orZero (chordTypeIndices st lastNote)"
  have av: "(if mode st = M_free then ALL_CHORD_TYPES else ?ts) = ?ts"
    by (simp add: getAvailable_free)
  have c: "0 \<le> ?c" using assms by (rule orZero_nonneg)
  show ?thesis
  proof (cases "(mode st \<noteq> M_free \<and> lastNote \<notin> set (scaleNotes st)) \<or> length ?ts = 0")
    case True
    with assms Some show ?thesis by (auto simp add: adjustLastChordType_def Let_def av)
  next
    case False
    then have len: "0 < int (length ?ts)" by auto
    from c len have u: "0 \<le> js_rem (?c + 1) (int (length ?ts))"
      by (simp add: js_rem_nonneg_range)
    from c len have "0 \<le> ?c - 1 + int (length ?ts)" by linarith
    with len have w: "0 \<le> js_rem (?c - 1 + int (length ?ts)) (int (length ?ts))"
      by (simp only: js_rem_nonneg_range)
    define v where "v = (if d = Up then js_rem (?c + 1) (int (length ?ts))
        else js_rem (?c - 1 + int (length ?ts)) (int (length ?ts)))"
    from u w have n: "0 \<le> v" by (simp add: v_def)
    from False Some have e: "chordTypeIndices (adjustLastChordType st d) =
        (chordTypeIndices st)(lastNote \<mapsto> v)"
      unfolding v_def by (auto simp add: adjustLastChordType_def Let_def av)
    show ?thesis
    proof (intro allI impI)
      fix k i assume "chordTypeIndices (adjustLastChordType st d) k = Some i"
      then have "((chordTypeIndices st)(lastNote \<mapsto> v)) k = Some i"
        by (simp only: e)
      then show "0 \<le> i" using assms n by (cases "k = lastNote") auto
    qed
  qed
qed

lemma modeEffect_indices_nonneg:
  assumes "\<forall>n i. chordTypeIndices st n = Some i \<longrightarrow> 0 \<le> i"
  shows "\<forall>n i. chordTypeIndices (fst (modeEffect st)) n = Some i \<longrightarrow> 0 \<le> i"
  using assms by (auto simp add: modeEffect_indices addDefaults_apply split: if_splits)

lemma handleKeyPress_indices:
  "chordTypeIndices (fst (handleKeyPress st note)) = chordTypeIndices st"
  by (simp add: handleKeyPress_def Let_def split: option.splits)

lemma mounted_indices: "chordTypeIndices (mounted k m) = Map.empty"
  by (simp add: mounted_def initial_def modeEffect_indices)

text \<open>
  Claim C10. With a last pressed note whose list of chord types is not empty, and an index
  that is not negative, stepping up or down stores the index plus or minus one modulo
  the length of the list; the state is unchanged when no note was pressed or the list is
  empty. With four chord types and index 0, stepping down gives 3.
\<close>

theorem C10_advance_wraps:
  "(lastPressedNote st = Some note \<and> getAvailableChordTypes st note \<noteq> []
      \<and> 0 \<le> orZero (chordTypeIndices st note) \<longrightarrow>
      adjustLastChordType st Up =
        st\<lparr> chordTypeIndices := (chordTypeIndices st)(note \<mapsto>
               (orZero (chordTypeIndices st note) + 1)
                 mod int (length (getAvailableChordTypes st note))) \<rparr>
    \<and> adjustLastChordType st Down =
        st\<lparr> chordTypeIndices := (chordTypeIndices st)(note \<mapsto>
               (orZero (chordTypeIndices st note) - 1)
                 mod int (length (getAvailableChordTypes st note))) \<rparr>)
   \<and> (lastPressedNote st = None \<longrightarrow> adjustLastChordType st dir = st)
   \<and> (lastPressedNote st = Some note \<and> getAvailableChordTypes st note = [] \<longrightarrow>
        adjustLastChordType st dir = st)"
proof (intro conjI impI)
  assume a: "lastPressedNote st = Some note \<and> getAvailableChordTypes st note \<noteq> []
      \<and> 0 \<le> orZero (chordTypeIndices st note)"
  let ?ts = "getAvailableChordTypes st note"
  let ?c = "orZero (chordTypeIndices st note)"
  from a have len: "0 < int (length ?ts)" by simp
  from a have sc: "mode st = M_free \<or> note \<in> set (scaleNotes st)"
    by (simp add: getAvailable_nonempty_in_scale)
  have av: "(if mode st = M_free then ALL_CHORD_TYPES else ?ts) = ?ts"
    by (simp add: getAvailable_free)
  from a have up: "js_rem (?c + 1) (int (length ?ts)) = (?c + 1) mod int (length ?ts)"
    using len by (simp add: js_rem_nonneg)
  from a have "0 \<le> ?c - 1 + int (length ?ts)" using len by linarith
  then have "js_rem (?c - 1 + int (length ?ts)) (int (length ?ts))
      = (?c - 1 + int (length ?ts)) mod int (length ?ts)"
    using len by (rule js_rem_nonneg)
  then have down: "js_rem (?c - 1 + int (length ?ts)) (int (length ?ts))
      = (?c - 1) mod int (length ?ts)"
    by simp
  from a sc show "adjustLastChordType st Up =
        st\<lparr> chordTypeIndices := (chordTypeIndices st)(note \<mapsto>
               (?c + 1) mod int (length ?ts)) \<rparr>"
    unfolding adjustLastChordType_def by (auto simp add: av up Let_def)
  from a sc show "adjustLastChordType st Down =
        st\<lparr> chordTypeIndices := (chordTypeIndices st)(note \<mapsto>
               (?c - 1) mod int (length ?ts)) \<rparr>"
    unfolding adjustLastChordType_def by (auto simp add: av down Let_def)
next
  assume "lastPressedNote st = None"
  then show "adjustLastChordType st dir = st"
    by (simp add: adjustLastChordType_def)
next
  assume a: "lastPressedNote st = Some note \<and> getAvailableChordTypes st note = []"
  then have "mode st \<noteq> M_free"
    using getAvailable_free [of st "note"] ALL_CHORD_TYPES_nonempty by auto
  with a show "adjustLastChordType st dir = st"
    by (simp add: adjustLastChordType_def Let_def)
qed

theorem C10_advance_wraps_witness:
  "lastPressedNote (fst (handleKeyPress (mounted N_C M_major) N_C)) = Some N_C
   \<and> getAvailableChordTypes (fst (handleKeyPress (mounted N_C M_major) N_C)) N_C
       = [T_major, T_major7, T_major9, T_add9]
   \<and> 0 \<le> orZero (chordTypeIndices (fst (handleKeyPress (mounted N_C M_major) N_C)) N_C)
   \<and> chordTypeIndices
        (adjustLastChordType (fst (handleKeyPress (mounted N_C M_major) N_C)) Down) N_C = Some 3
   \<and> chordTypeIndices
        (adjustLastChordType (fst (handleKeyPress (mounted N_C M_major) N_C)) Up) N_C = Some 1
   \<and> lastPressedNote (mounted N_C M_major) = None
   \<and> adjustLastChordType (mounted N_C M_major) Down = mounted N_C M_major
   \<and> lastPressedNote ((mounted N_C M_major)\<lparr> lastPressedNote := Some N_Cs \<rparr>) = Some N_Cs
   \<and> getAvailableChordTypes ((mounted N_C M_major)\<lparr> lastPressedNote := Some N_Cs \<rparr>) N_Cs = []
   \<and> adjustLastChordType ((mounted N_C M_major)\<lparr> lastPressedNote := Some N_Cs \<rparr>) Up
       = (mounted N_C M_major)\<lparr> lastPressedNote := Some N_Cs \<rparr>"
proof -
  let ?s = "fst (handleKeyPress (mounted N_C M_major) N_C)"
  let ?e = "(mounted N_C M_major)\<lparr> lastPressedNote := Some N_Cs \<rparr>"
  have l: "lastPressedNote ?s = Some N_C"
    by (simp add: pressed_C_major)
  have g: "getAvailableChordTypes ?s N_C = [T_major, T_major7, T_major9, T_add9]"
    by (simp add: pressed_C_major getAvailableChordTypes_def MAJOR_SCALE_CHORDS_def)
  have i: "orZero (chordTypeIndices ?s N_C) = 0"
    by (simp add: pressed_C_major orZero_def)
  from l g i have h: "lastPressedNote ?s = Some N_C \<and> getAvailableChordTypes ?s N_C \<noteq> []
      \<and> 0 \<le> orZero (chordTypeIndices ?s N_C)"
    by simp
  from C10_advance_wraps [of ?s N_C Up] h
  have d: "adjustLastChordType ?s Down =
        ?s\<lparr> chordTypeIndices := (chordTypeIndices ?s)(N_C \<mapsto>
               (orZero (chordTypeIndices ?s N_C) - 1)
                 mod int (length (getAvailableChordTypes ?s N_C))) \<rparr>"
    and u: "adjustLastChordType ?s Up =
        ?s\<lparr> chordTypeIndices := (chordTypeIndices ?s)(N_C \<mapsto>
               (orZero (chordTypeIndices ?s N_C) + 1)
                 mod int (length (getAvailableChordTypes ?s N_C))) \<rparr>"
    by blast+
  have 1: "chordTypeIndices (adjustLastChordType ?s Down) N_C = Some 3"
    unfolding d g i by simp
  have 2: "chordTypeIndices (adjustLastChordType ?s Up) N_C = Some 1"
    unfolding u g i by simp
  have n: "lastPressedNote (mounted N_C M_major) = None"
    by (simp add: mounted_C_major)
  with C10_advance_wraps [of "mounted N_C M_major" N_C Down]
  have 3: "adjustLastChordType (mounted N_C M_major) Down = mounted N_C M_major"
    by blast
  have e: "lastPressedNote ?e = Some N_Cs \<and> getAvailableChordTypes ?e N_Cs = []"
    by (simp add: mounted_C_major getAvailableChordTypes_def)
  with C10_advance_wraps [of ?e N_Cs Up]
  have 4: "adjustLastChordType ?e Up = ?e"
    by blast
  from l g i 1 2 n 3 e 4 show ?thesis by simp
qed

lemma findNote_allNotes:
  "0 \<le> v \<Longrightarrow> v < 12 \<Longrightarrow> findNote v = Some (allNotes ! nat v)"
proof -
  assume "0 \<le> v" "v < 12"
  then have "v = 0 \<or> v = 1 \<or> v = 2 \<or> v = 3 \<or> v = 4 \<or> v = 5 \<or> v = 6 \<or> v = 7
      \<or> v = 8 \<or> v = 9 \<or> v = 10 \<or> v = 11"
    by arith
  then show ?thesis
    by (elim disjE) (simp_all add: findNote_sharp allNotes_def)
qed

lemma NOTE_VALUES_range: "0 \<le> NOTE_VALUES rt \<and> NOTE_VALUES rt < 12"
  by (cases rt) simp_all

lemma SCALE_PATTERNS_length: "length (SCALE_PATTERNS md) = (if md = M_free then 12 else 7)"
  by (cases md) simp_all

lemma SCALE_PATTERNS_sorted:
  "sorted_wrt (<) (SCALE_PATTERNS md) \<and> hd (SCALE_PATTERNS md) = 0
     \<and> set (SCALE_PATTERNS md) \<subseteq> {0..11}"
  by (cases md) simp_all

lemma getScaleNotes_map:
  "getScaleNotes rt md =
     map (\<lambda>i. allNotes ! nat ((NOTE_VALUES rt + i) mod 12)) (SCALE_PATTERNS md)"
proof -
  let ?f = "\<lambda>interval. case findNote (js_rem (NOTE_VALUES rt + interval) 12) of
                 Some n \<Rightarrow> [n] | None \<Rightarrow> []"
  let ?g = "\<lambda>i. [allNotes ! nat ((NOTE_VALUES rt + i) mod 12)]"
  have "\<And>i. i \<in> set (SCALE_PATTERNS md) \<Longrightarrow> ?f i = ?g i"
  proof -
    fix i assume "i \<in> set (SCALE_PATTERNS md)"
    then have "0 \<le> i" using SCALE_PATTERNS_sorted [of md] by auto
    then have "0 \<le> NOTE_VALUES rt + i"
      using NOTE_VALUES_range [of rt] by linarith
    then have "js_rem (NOTE_VALUES rt + i) 12 = (NOTE_VALUES rt + i) mod 12"
      by (simp add: js_rem_nonneg)
    then show "?f i = ?g i"
      by (simp add: findNote_allNotes)
  qed
  then have "map ?f (SCALE_PATTERNS md) = map ?g (SCALE_PATTERNS md)"
    by (rule map_cong [OF refl])
  then have "concat (map ?f (SCALE_PATTERNS md)) = concat (map ?g (SCALE_PATTERNS md))"
    by (rule arg_cong)
  moreover have "getScaleNotes rt md = concat (map ?f (SCALE_PATTERNS md))"
    by (simp add: getScaleNotes_def Let_def)
  moreover have "concat (map ?g (SCALE_PATTERNS md))
      = map (\<lambda>i. allNotes ! nat ((NOTE_VALUES rt + i) mod 12)) (SCALE_PATTERNS md)"
    by (rule concat_map_singleton)
  ultimately show ?thesis by (simp only:)
qed

lemma allNotes_distinct: "distinct allNotes \<and> length allNotes = 12"
  by (simp add: allNotes_def)

lemma getScaleNotes_length: "length (getScaleNotes rt md) = (if md = M_free then 12 else 7)"
  by (simp only: getScaleNotes_map length_map SCALE_PATTERNS_length)

lemma getScaleNotes_valid: "set (getScaleNotes rt md) \<subseteq> set allNotes"
proof -
  have "\<And>i. nat ((NOTE_VALUES rt + i) mod 12) < length allNotes"
    by (simp add: allNotes_distinct nat_less_iff)
  then show ?thesis
    by (auto simp add: getScaleNotes_map)
qed

lemma getScaleNotes_distinct: "distinct (getScaleNotes rt md)"
proof -
  let ?f = "\<lambda>i. allNotes ! nat ((NOTE_VALUES rt + i) mod 12)"
  have inj: "inj_on ?f (set (SCALE_PATTERNS md))"
  proof (rule inj_onI)
    fix x y assume x: "x \<in> set (SCALE_PATTERNS md)" and y: "y \<in> set (SCALE_PATTERNS md)"
      and e: "?f x = ?f y"
    have lx: "nat ((NOTE_VALUES rt + x) mod 12) < length allNotes"
      and ly: "nat ((NOTE_VALUES rt + y) mod 12) < length allNotes"
      by (simp_all add: allNotes_distinct nat_less_iff)
    from e lx ly have "nat ((NOTE_VALUES rt + x) mod 12) = nat ((NOTE_VALUES rt + y) mod 12)"
      using allNotes_distinct by (simp add: nth_eq_iff_index_eq)
    then have m: "(NOTE_VALUES rt + x) mod 12 = (NOTE_VALUES rt + y) mod 12"
      by simp
    then have "12 dvd (NOTE_VALUES rt + x) - (NOTE_VALUES rt + y)"
      by (simp only: mod_eq_dvd_iff)
    then have d: "12 dvd x - y" by simp
    from x y SCALE_PATTERNS_sorted [of md] have "0 \<le> x" "x \<le> 11" "0 \<le> y" "y \<le> 11"
      by auto
    with d show "x = y"
      by presburger
  qed
  have "distinct (SCALE_PATTERNS md)"
    using SCALE_PATTERNS_sorted [of md] by (simp add: strict_sorted_iff)
  with inj show ?thesis
    by (simp add: getScaleNotes_map distinct_map)
qed

lemma getScaleNotes_free_set: "set (getScaleNotes rt M_free) = set allNotes"
proof -
  have "card (set (getScaleNotes rt M_free)) = 12"
    using getScaleNotes_distinct [of rt M_free] getScaleNotes_length [of rt M_free]
    by (simp add: distinct_card)
  moreover have "card (set allNotes) = 12"
    using allNotes_distinct by (simp add: distinct_card)
  ultimately show ?thesis
    using getScaleNotes_valid [of rt M_free]
    by (simp add: card_subset_eq)
qed

text \<open>
  Claim C7. For every root and every mode other than free, \<^verbatim>\<open>getScaleNotes\<close> returns
  seven notes; for free it returns twelve notes, which are the twelve sharp spellings.
  In every mode the result is the pattern of the mode, taken in order, each offset added
  to the value of the root modulo 12 and named by its sharp spelling; the pattern is
  strictly ascending and starts at 0; the notes are among the twelve sharp spellings and
  pairwise different.
\<close>

theorem C7_scale_notes:
  "(md \<noteq> M_free \<longrightarrow> length (getScaleNotes rt md) = 7)
   \<and> (md = M_free \<longrightarrow>
        length (getScaleNotes rt md) = 12 \<and> set (getScaleNotes rt md) = set allNotes)
   \<and> getScaleNotes rt md =
        map (\<lambda>i. allNotes ! nat ((NOTE_VALUES rt + i) mod 12)) (SCALE_PATTERNS md)
   \<and> sorted_wrt (<) (SCALE_PATTERNS md) \<and> hd (SCALE_PATTERNS md) = 0
   \<and> set (getScaleNotes rt md) \<subseteq> set allNotes
   \<and> distinct (getScaleNotes rt md)"
  using getScaleNotes_length [of rt md] getScaleNotes_free_set [of rt]
    getScaleNotes_map [of rt md] SCALE_PATTERNS_sorted [of md]
    getScaleNotes_valid [of rt md] getScaleNotes_distinct [of rt md]
  by (simp only: simp_thms if_True if_False split: if_splits)

theorem C7_scale_notes_witness:
  "M_minor \<noteq> M_free
   \<and> length (getScaleNotes N_A M_minor) = 7
   \<and> getScaleNotes N_A M_minor = [N_A, N_B, N_C, N_D, N_E, N_F, N_G]
   \<and> length (getScaleNotes N_D M_free) = 12
   \<and> set (getScaleNotes N_D M_free) = set allNotes"
proof -
  have n: "M_minor \<noteq> M_free" by simp
  from C7_scale_notes [of M_minor N_A] n
  have 1: "length (getScaleNotes N_A M_minor) = 7"
    and "getScaleNotes N_A M_minor =
        map (\<lambda>i. allNotes ! nat ((NOTE_VALUES N_A + i) mod 12)) (SCALE_PATTERNS M_minor)"
    by blast+
  then have 2: "getScaleNotes N_A M_minor = [N_A, N_B, N_C, N_D, N_E, N_F, N_G]"
    by (simp add: allNotes_def)
  from C7_scale_notes [of M_free N_D]
  have 3: "length (getScaleNotes N_D M_free) = 12 \<and> set (getScaleNotes N_D M_free) = set allNotes"
    by blast
  from n 1 2 3 show ?thesis by blast
qed

lemma indexOf_range:
  "x \<in> set xs \<Longrightarrow> 0 \<le> indexOf xs x \<and> indexOf xs x < int (length xs)"
  by (induction xs) (auto simp add: Let_def)

lemma MAJOR_SCALE_CHORDS_degree:
  "1 \<le> d \<Longrightarrow> d \<le> 7 \<Longrightarrow> \<exists>ts. MAJOR_SCALE_CHORDS d = Some ts \<and> length ts \<in> {3, 4}"
  by (simp add: MAJOR_SCALE_CHORDS_def)

lemma MINOR_SCALE_CHORDS_degree:
  "1 \<le> d \<Longrightarrow> d \<le> 7 \<Longrightarrow> \<exists>ts. MINOR_SCALE_CHORDS d = Some ts \<and> length ts \<in> {3, 4}"
  by (simp add: MINOR_SCALE_CHORDS_def)

lemma getAvailable_in_scale:
  assumes "mode st \<noteq> M_free" and "note \<in> set (scaleNotes st)"
  shows "getAvailableChordTypes st note =
     (case (if mode st = M_minor then MINOR_SCALE_CHORDS else MAJOR_SCALE_CHORDS)
             (indexOf (scaleNotes st) note + 1) of
        Some ts \<Rightarrow> ts | None \<Rightarrow> [])"
  using assms by (simp add: getAvailableChordTypes_def Let_def)

lemma getScaleNotes_C_dorian: "getScaleNotes N_C M_dorian = [N_C, N_D, N_Ds, N_F, N_G, N_A, N_As]"
  by (simp add: getScaleNotes_def js_rem_def findNote_sharp)

lemma mounted_scale:
  "mode (mounted k m) = m" "selectedKey (mounted k m) = k"
  "scaleNotes (mounted k m) = getScaleNotes k m"
  by (simp_all add: mounted_def initial_def modeEffect_def Let_def)

text \<open>In a mode other than free the effect leaves the scale of the key and mode.\<close>

lemma modeEffect_scale:
  "mode st \<noteq> M_free \<Longrightarrow>
     scaleNotes (fst (modeEffect st)) = getScaleNotes (selectedKey st) (mode st)
     \<and> mode (fst (modeEffect st)) = mode st
     \<and> selectedKey (fst (modeEffect st)) = selectedKey st"
  by (simp add: modeEffect_def Let_def split: prod.splits)

text \<open>
  Claim C8. In free mode \<^verbatim>\<open>getAvailableChordTypes\<close> returns the whole list of chord
  types for every note, in its fixed order: triads, sevenths, ninths, elevenths and
  thirteenths, suspended, sixths, altered. In any other mode, once the scale of the state
  is the scale of the key and mode, a note of the scale has a degree from 1 to 7 and gets
  the entry of that degree in the minor table when the mode is minor and in the major
  table in every other mode; the entry has three or four chord types.
\<close>

theorem C8_eligible_chord_types:
  "(mode st = M_free \<longrightarrow> getAvailableChordTypes st note = ALL_CHORD_TYPES)
   \<and> (mode st \<noteq> M_free \<and> scaleNotes st = getScaleNotes (selectedKey st) (mode st)
        \<and> note \<in> set (scaleNotes st) \<longrightarrow>
        1 \<le> indexOf (scaleNotes st) note + 1 \<and> indexOf (scaleNotes st) note + 1 \<le> 7
      \<and> (if mode st = M_minor then MINOR_SCALE_CHORDS else MAJOR_SCALE_CHORDS)
            (indexOf (scaleNotes st) note + 1) = Some (getAvailableChordTypes st note)
      \<and> length (getAvailableChordTypes st note) \<in> {3, 4})
   \<and> ALL_CHORD_TYPES =
        [T_major, T_minor, T_dim, T_augmented, T_5]
        @ [T_major7, T_minor7, T_7, T_dim7, T_m7b5, T_phi7, T_minorMajor7]
        @ [T_major9, T_minor9, T_9, T_add9, T_7b9, T_7s9, T_dim9, T_aug9]
        @ [T_11, T_m11, T_major11, T_13, T_13sus, T_13b9, T_m11b5]
        @ [T_sus2, T_sus4, T_7sus, T_7sus4, T_9sus, T_7sus2b9]
        @ [T_6, T_minor6, T_69, T_m69]
        @ [T_7s11, T_7b13, T_maj9s11, T_m9b5, T_9s11, T_maj7s5, T_7alt, T_7b5, T_7s5,
           T_augmented7, T_augmentedMajor7]"
proof (intro conjI impI)
  assume "mode st = M_free"
  then show "getAvailableChordTypes st note = ALL_CHORD_TYPES"
    by (rule getAvailable_free)
next
  assume a: "mode st \<noteq> M_free \<and> scaleNotes st = getScaleNotes (selectedKey st) (mode st)
        \<and> note \<in> set (scaleNotes st)"
  let ?d = "indexOf (scaleNotes st) note + 1"
  from a have len: "length (scaleNotes st) = 7"
    using getScaleNotes_length [of "selectedKey st" "mode st"] by simp
  from a have m: "note \<in> set (scaleNotes st)" by blast
  from indexOf_range [OF m] len
  show d1: "1 \<le> ?d" and d7: "?d \<le> 7"
    by simp_all
  show t: "(if mode st = M_minor then MINOR_SCALE_CHORDS else MAJOR_SCALE_CHORDS) ?d
      = Some (getAvailableChordTypes st note)"
    using a d1 d7 MAJOR_SCALE_CHORDS_degree [of ?d] MINOR_SCALE_CHORDS_degree [of ?d]
    by (auto simp add: getAvailable_in_scale)
  show "length (getAvailableChordTypes st note) \<in> {3, 4}"
    using t d1 d7 MAJOR_SCALE_CHORDS_degree [of ?d] MINOR_SCALE_CHORDS_degree [of ?d]
    by (auto split: if_splits)
next
  show "ALL_CHORD_TYPES =
        [T_major, T_minor, T_dim, T_augmented, T_5]
        @ [T_major7, T_minor7, T_7, T_dim7, T_m7b5, T_phi7, T_minorMajor7]
        @ [T_major9, T_minor9, T_9, T_add9, T_7b9, T_7s9, T_dim9, T_aug9]
        @ [T_11, T_m11, T_major11, T_13, T_13sus, T_13b9, T_m11b5]
        @ [T_sus2, T_sus4, T_7sus, T_7sus4, T_9sus, T_7sus2b9]
        @ [T_6, T_minor6, T_69, T_m69]
        @ [T_7s11, T_7b13, T_maj9s11, T_m9b5, T_9s11, T_maj7s5, T_7alt, T_7b5, T_7s5,
           T_augmented7, T_augmentedMajor7]"
    by (simp add: ALL_CHORD_TYPES_def)
qed

theorem C8_eligible_chord_types_witness:
  "mode (mounted N_C M_free) = M_free
   \<and> getAvailableChordTypes (mounted N_C M_free) N_Fs = ALL_CHORD_TYPES
   \<and> mode (mounted N_C M_dorian) \<noteq> M_free
   \<and> scaleNotes (mounted N_C M_dorian)
       = getScaleNotes (selectedKey (mounted N_C M_dorian)) (mode (mounted N_C M_dorian))
   \<and> N_D \<in> set (scaleNotes (mounted N_C M_dorian))
   \<and> indexOf (scaleNotes (mounted N_C M_dorian)) N_D + 1 = 2
   \<and> getAvailableChordTypes (mounted N_C M_dorian) N_D = [T_minor, T_minor7, T_minor9]
   \<and> mode (mounted N_C M_minor) \<noteq> M_free
   \<and> scaleNotes (mounted N_C M_minor)
       = getScaleNotes (selectedKey (mounted N_C M_minor)) (mode (mounted N_C M_minor))
   \<and> N_D \<in> set (scaleNotes (mounted N_C M_minor))
   \<and> getAvailableChordTypes (mounted N_C M_minor) N_D = [T_dim, T_dim7, T_m7b5]"
proof -
  have f: "mode (mounted N_C M_free) = M_free" by (simp add: mounted_scale)
  with C8_eligible_chord_types [of "mounted N_C M_free" N_Fs]
  have 1: "getAvailableChordTypes (mounted N_C M_free) N_Fs = ALL_CHORD_TYPES"
    by blast
  let ?d = "mounted N_C M_dorian"
  have hd: "mode ?d \<noteq> M_free \<and> scaleNotes ?d = getScaleNotes (selectedKey ?d) (mode ?d)
      \<and> N_D \<in> set (scaleNotes ?d)"
    by (simp add: mounted_scale getScaleNotes_C_dorian)
  have id: "indexOf (scaleNotes ?d) N_D + 1 = 2"
    by (simp add: mounted_scale getScaleNotes_C_dorian)
  from C8_eligible_chord_types [of ?d N_D] hd
  have "(if mode ?d = M_minor then MINOR_SCALE_CHORDS else MAJOR_SCALE_CHORDS)
            (indexOf (scaleNotes ?d) N_D + 1) = Some (getAvailableChordTypes ?d N_D)"
    by blast
  then have 2: "getAvailableChordTypes ?d N_D = [T_minor, T_minor7, T_minor9]"
    unfolding id by (simp add: mounted_scale MAJOR_SCALE_CHORDS_def)
  let ?m = "mounted N_C M_minor"
  have hm: "mode ?m \<noteq> M_free \<and> scaleNotes ?m = getScaleNotes (selectedKey ?m) (mode ?m)
      \<and> N_D \<in> set (scaleNotes ?m)"
    by (simp add: mounted_scale getScaleNotes_C_minor)
  have im: "indexOf (scaleNotes ?m) N_D + 1 = 2"
    by (simp add: mounted_scale getScaleNotes_C_minor)
  from C8_eligible_chord_types [of ?m N_D] hm
  have "(if mode ?m = M_minor then MINOR_SCALE_CHORDS else MAJOR_SCALE_CHORDS)
            (indexOf (scaleNotes ?m) N_D + 1) = Some (getAvailableChordTypes ?m N_D)"
    by blast
  then have 3: "getAvailableChordTypes ?m N_D = [T_dim, T_dim7, T_m7b5]"
    unfolding im by (simp add: mounted_scale MINOR_SCALE_CHORDS_def)
  from f 1 hd id 2 hm 3 show ?thesis by blast
qed

subsection \<open>Inversion\<close>

lemma invertUp_Cons: "invertUp (x # xs) = xs @ [x + 12]"
  by (simp add: invertUp_def)

lemma invertDown_snoc: "invertDown (xs @ [x]) = (x - 12) # xs"
  by (simp add: invertDown_def)

lemma invertUp_nonempty: "invertUp ns \<noteq> []"
  by (simp add: invertUp_def Let_def)

lemma invertDown_nonempty: "invertDown ns \<noteq> []"
  by (simp add: invertDown_def Let_def)

lemma invertDown_invertUp: "ns \<noteq> [] \<Longrightarrow> invertDown (invertUp ns) = ns"
  by (cases ns) (simp_all add: invertUp_Cons invertDown_snoc)

lemma invertUp_invertDown: "ns \<noteq> [] \<Longrightarrow> invertUp (invertDown ns) = ns"
  by (cases ns rule: rev_cases) (simp_all add: invertUp_Cons invertDown_snoc)

lemma funpow_nonempty:
  fixes f :: "int list \<Rightarrow> int list"
  shows "ns \<noteq> [] \<Longrightarrow> (\<And>xs. f xs \<noteq> []) \<Longrightarrow> (f ^^ n) ns \<noteq> []"
  by (cases n) simp_all

lemma funpow_undo:
  fixes f g :: "int list \<Rightarrow> int list"
  assumes inv: "\<And>xs. xs \<noteq> [] \<Longrightarrow> g (f xs) = xs"
    and ne: "\<And>xs. f xs \<noteq> ([] :: int list)"
    and ns: "ns \<noteq> []"
  shows "(g ^^ n) ((f ^^ n) ns) = ns"
proof (induction n)
  case 0
  show ?case by simp
next
  case (Suc n)
  have "(f ^^ n) ns \<noteq> []" using ns ne by (rule funpow_nonempty)
  then have "g (f ((f ^^ n) ns)) = (f ^^ n) ns" by (rule inv)
  then have "(g ^^ Suc n) ((f ^^ Suc n) ns) = (g ^^ n) ((f ^^ n) ns)"
    by (simp add: funpow_swap1)
  with Suc show ?case by simp
qed

lemma applyInversion_round_trip:
  assumes "ns \<noteq> []"
  shows "applyInversion (- k) (applyInversion k ns) = ns"
proof -
  consider "k = 0" | "0 < k" | "k < 0" by linarith
  then show ?thesis
  proof cases
    case 1
    then show ?thesis by (simp add: applyInversion_def)
  next
    case 2
    then have "applyInversion (- k) (applyInversion k ns)
        = (invertDown ^^ nat k) ((invertUp ^^ nat k) ns)"
      by (simp add: applyInversion_def)
    also have "\<dots> = ns"
      using invertDown_invertUp invertUp_nonempty assms by (rule funpow_undo)
    finally show ?thesis .
  next
    case 3
    then have "applyInversion (- k) (applyInversion k ns)
        = (invertUp ^^ nat (- k)) ((invertDown ^^ nat (- k)) ns)"
      by (simp add: applyInversion_def)
    also have "\<dots> = ns"
      using invertUp_invertDown invertDown_nonempty assms by (rule funpow_undo)
    finally show ?thesis .
  qed
qed

lemma applyOctave_map: "applyOctave oct ns = map (\<lambda>x. x + 12 * oct) ns"
  by (simp add: applyOctave_def)

lemma invertUp_shift: "ns \<noteq> [] \<Longrightarrow> invertUp (map (\<lambda>x. x + c) ns) = map (\<lambda>x. x + c) (invertUp ns)"
  by (cases ns) (simp_all add: invertUp_Cons)

lemma invertDown_shift:
  "ns \<noteq> [] \<Longrightarrow> invertDown (map (\<lambda>x. x + c) ns) = map (\<lambda>x. x + c) (invertDown ns)"
  by (cases ns rule: rev_cases) (simp_all add: invertDown_snoc)

lemma funpow_shift:
  fixes f :: "int list \<Rightarrow> int list"
  assumes sh: "\<And>xs. xs \<noteq> [] \<Longrightarrow> f (map (\<lambda>x. x + c) xs) = map (\<lambda>x. x + c) (f xs)"
    and ne: "\<And>xs. f xs \<noteq> ([] :: int list)"
    and ns: "ns \<noteq> []"
  shows "(f ^^ n) (map (\<lambda>x. x + c) ns) = map (\<lambda>x. x + c) ((f ^^ n) ns)"
proof (induction n)
  case 0
  show ?case by simp
next
  case (Suc n)
  have "(f ^^ n) ns \<noteq> []" using ns ne by (rule funpow_nonempty)
  then have "f (map (\<lambda>x. x + c) ((f ^^ n) ns)) = map (\<lambda>x. x + c) (f ((f ^^ n) ns))"
    by (rule sh)
  with Suc show ?case by simp
qed

lemma applyInversion_shift:
  assumes "ns \<noteq> []"
  shows "applyInversion k (map (\<lambda>x. x + c) ns) = map (\<lambda>x. x + c) (applyInversion k ns)"
proof -
  have u: "(invertUp ^^ n) (map (\<lambda>x. x + c) ns) = map (\<lambda>x. x + c) ((invertUp ^^ n) ns)" for n
    using invertUp_shift invertUp_nonempty assms by (rule funpow_shift)
  have d: "(invertDown ^^ n) (map (\<lambda>x. x + c) ns) = map (\<lambda>x. x + c) ((invertDown ^^ n) ns)" for n
    using invertDown_shift invertDown_nonempty assms by (rule funpow_shift)
  show ?thesis
    by (simp add: applyInversion_def u d)
qed

lemma applyInversion_nonempty: "ns \<noteq> [] \<Longrightarrow> applyInversion k ns \<noteq> []"
  by (simp add: applyInversion_def funpow_nonempty invertUp_nonempty invertDown_nonempty)

lemma invertDown_last: "ns \<noteq> [] \<Longrightarrow> invertDown ns = (last ns - 12) # butlast ns"
  by (cases ns rule: rev_cases) (simp_all add: invertDown_snoc)

lemma applyInversion_small:
  "applyInversion 0 p = p" "applyInversion 1 p = invertUp p"
  "applyInversion 2 p = invertUp (invertUp p)"
  "applyInversion (- 1) p = invertDown p"
  "applyInversion (- 2) p = invertDown (invertDown p)"
  by (simp_all add: applyInversion_def eval_nat_numeral)

lemma CHORD_PATTERNS_steps:
  "\<forall>p \<in> set (map snd CHORD_PATTERNS).
     p \<noteq> [] \<and> hd p = 0
     \<and> hd p = Min (set p)
     \<and> hd (invertUp p) = Min (set (invertUp p))
     \<and> hd (invertUp (invertUp p)) = Min (set (invertUp (invertUp p)))
     \<and> last p = Max (set p)
     \<and> last (invertDown p) = Max (set (invertDown p))
     \<and> (p \<noteq> [0, 4, 7, 10, 20] \<longrightarrow>
          last (invertDown (invertDown p)) = Max (set (invertDown (invertDown p))))"
  by (simp add: CHORD_PATTERNS_def invertUp_Cons invertDown_last)

lemma chordPattern_7b13_only: "chordPattern t = Some [0, 4, 7, 10, 20] \<Longrightarrow> t = T_7b13"
  by (cases t) (simp_all add: chordPattern_def CHORD_PATTERNS_def phi_def)

lemma chordPattern_in_table: "chordPattern t = Some p \<Longrightarrow> p \<in> set (map snd CHORD_PATTERNS)"
  unfolding chordPattern_def by (drule map_of_SomeD) force

lemma createChord_Some:
  "createChord rt t = Some chord \<longleftrightarrow>
     (\<exists>p. chordPattern t = Some p
        \<and> chord = \<lparr> root = rt, type = t,
                    notes = map (\<lambda>interval. NOTE_VALUES rt + interval + 60) p,
                    name = noteStr rt @ chordTypeStr t \<rparr>)"
  by (auto simp add: createChord_def Let_def split: option.splits)

lemma built_notes:
  assumes "createChord rt t = Some chord"
  shows "\<exists>p \<in> set (map snd CHORD_PATTERNS).
           applyOctave oct (notes chord) = map (\<lambda>x. x + (NOTE_VALUES rt + 60 + 12 * oct)) p"
proof -
  from assms obtain p where p: "chordPattern t = Some p"
    and n: "notes chord = map (\<lambda>interval. NOTE_VALUES rt + interval + 60) p"
    by (auto simp add: createChord_Some)
  have "applyOctave oct (notes chord) = map (\<lambda>x. x + (NOTE_VALUES rt + 60 + 12 * oct)) p"
    by (simp add: applyOctave_map n)
  with chordPattern_in_table [OF p] show ?thesis by blast
qed

lemma hd_Min_shift:
  fixes xs :: "int list"
  assumes "xs \<noteq> []" and "hd xs = Min (set xs)"
  shows "hd (map (\<lambda>x. x + c) xs) = Min (set (map (\<lambda>x. x + c) xs))"
proof -
  have "mono (\<lambda>x :: int. x + c)" by (simp add: mono_def)
  then have "(Min (set xs)) + c = Min ((\<lambda>x. x + c) ` set xs)"
    using assms(1) by (intro mono_Min_commute) simp_all
  with assms show ?thesis by (simp add: hd_map)
qed

lemma last_Max_shift:
  fixes xs :: "int list"
  assumes "xs \<noteq> []" and "last xs = Max (set xs)"
  shows "last (map (\<lambda>x. x + c) xs) = Max (set (map (\<lambda>x. x + c) xs))"
proof -
  have "mono (\<lambda>x :: int. x + c)" by (simp add: mono_def)
  then have "(Max (set xs)) + c = Max ((\<lambda>x. x + c) ` set xs)"
    using assms(1) by (intro mono_Max_commute) simp_all
  with assms show ?thesis by (simp add: last_map)
qed


lemma built_first_lowest:
  assumes c: "createChord rt t = Some chord" and j: "0 \<le> j" "j < 3"
  shows "hd (applyInversion j (applyOctave oct (notes chord)))
           = Min (set (applyInversion j (applyOctave oct (notes chord))))
       \<and> (j < 2 \<or> t \<noteq> T_7b13 \<longrightarrow>
            last (applyInversion (- j) (applyOctave oct (notes chord)))
              = Max (set (applyInversion (- j) (applyOctave oct (notes chord)))))"
proof -
  from c obtain p where cp: "chordPattern t = Some p"
    and nc: "notes chord = map (\<lambda>interval. NOTE_VALUES rt + interval + 60) p"
    by (auto simp add: createChord_Some)
  have n: "applyOctave oct (notes chord) = map (\<lambda>x. x + (NOTE_VALUES rt + 60 + 12 * oct)) p"
    by (simp add: applyOctave_map nc)
  from chordPattern_in_table [OF cp] CHORD_PATTERNS_steps have ne: "p \<noteq> []"
    and u: "hd p = Min (set p)" "hd (invertUp p) = Min (set (invertUp p))"
      "hd (invertUp (invertUp p)) = Min (set (invertUp (invertUp p)))"
    and d: "last p = Max (set p)" "last (invertDown p) = Max (set (invertDown p))"
    and d2: "p \<noteq> [0, 4, 7, 10, 20] \<longrightarrow>
      last (invertDown (invertDown p)) = Max (set (invertDown (invertDown p)))"
    by blast+
  from cp chordPattern_7b13_only have e: "t \<noteq> T_7b13 \<longrightarrow> p \<noteq> [0, 4, 7, 10, 20]"
    by blast
  from j have "j = 0 \<or> j = 1 \<or> j = 2" by arith
  then have up: "hd (applyInversion j p) = Min (set (applyInversion j p))"
    using u by (elim disjE) (simp_all add: applyInversion_small)
  have down: "last (applyInversion (- j) p) = Max (set (applyInversion (- j) p))"
    if "j < 2 \<or> t \<noteq> T_7b13"
  proof -
    from j have "j = 0 \<or> j = 1 \<or> j = 2" by arith
    then show ?thesis
      using d d2 e that by (elim disjE) (simp_all add: applyInversion_small)
  qed
  have 1: "hd (applyInversion j (applyOctave oct (notes chord)))
           = Min (set (applyInversion j (applyOctave oct (notes chord))))"
    unfolding n applyInversion_shift [OF ne]
    using applyInversion_nonempty [OF ne] up by (rule hd_Min_shift)
  have 2: "last (applyInversion (- j) (applyOctave oct (notes chord)))
              = Max (set (applyInversion (- j) (applyOctave oct (notes chord))))"
    if "j < 2 \<or> t \<noteq> T_7b13"
    unfolding n applyInversion_shift [OF ne]
    using applyInversion_nonempty [OF ne] down [OF that] by (rule last_Max_shift)
  from 1 2 show ?thesis by blast
qed

lemma chordPattern_add9: "chordPattern T_add9 = Some [0, 4, 7, 14]"
  by (simp add: chordPattern_def CHORD_PATTERNS_def)

lemma createChord_C_add9:
  "createChord N_C T_add9 =
     Some \<lparr> root = N_C, type = T_add9, notes = [60, 64, 67, 74], name = ''Cadd9'' \<rparr>"
  by (simp add: createChord_def chordPattern_add9)

lemma chordPattern_7b13: "chordPattern T_7b13 = Some [0, 4, 7, 10, 20]"
  by (simp add: chordPattern_def CHORD_PATTERNS_def)

lemma createChord_C_7b13:
  "createChord N_C T_7b13 =
     Some \<lparr> root = N_C, type = T_7b13, notes = [60, 64, 67, 70, 80], name = ''C7b13'' \<rparr>"
  by (simp add: createChord_def chordPattern_7b13)

text \<open>
  Claim C6, as amended. For every root, chord type, octave and inversion count \<open>k\<close>, the
  notes built with inversion \<open>k\<close>, inverted \<open>k\<close> times the other way, are the notes
  built with inversion 0, as a list and so as a set. A step up adds 12 to the first note
  and moves it to the end, a step down takes 12 from the last note and moves it to the
  front, and the other notes keep their order. In the first three steps up the first
  note is the lowest one; in the first three steps down the last note is the highest
  one, except at the third step down of the chord type 7b13.
\<close>

theorem C6_inversion_rotates_by_position:
  "(\<forall>chord. createChord rt t = Some chord \<longrightarrow>
       applyInversion (- k) (applyInversion k (applyOctave oct (notes chord)))
         = applyInversion 0 (applyOctave oct (notes chord))
     \<and> set (applyInversion (- k) (applyInversion k (applyOctave oct (notes chord))))
         = set (applyInversion 0 (applyOctave oct (notes chord))))
   \<and> (\<forall>x xs. invertUp (x # xs) = xs @ [x + 12])
   \<and> (\<forall>x xs. invertDown (xs @ [x]) = (x - 12) # xs)
   \<and> (\<forall>chord j. createChord rt t = Some chord \<and> 0 \<le> j \<and> j < 3 \<longrightarrow>
         hd (applyInversion j (applyOctave oct (notes chord)))
           = Min (set (applyInversion j (applyOctave oct (notes chord))))
       \<and> (j < 2 \<or> t \<noteq> T_7b13 \<longrightarrow>
            last (applyInversion (- j) (applyOctave oct (notes chord)))
              = Max (set (applyInversion (- j) (applyOctave oct (notes chord))))))"
proof (intro conjI allI impI)
  fix chord assume c: "createChord rt t = Some chord"
  from built_notes [OF c, of oct] CHORD_PATTERNS_steps
  have ne: "applyOctave oct (notes chord) \<noteq> []"
    by auto
  then show r: "applyInversion (- k) (applyInversion k (applyOctave oct (notes chord)))
         = applyInversion 0 (applyOctave oct (notes chord))"
    by (simp add: applyInversion_round_trip applyInversion_small)
  then show "set (applyInversion (- k) (applyInversion k (applyOctave oct (notes chord))))
         = set (applyInversion 0 (applyOctave oct (notes chord)))"
    by simp
next
  fix x xs show "invertUp (x # xs) = xs @ [x + 12]" by (rule invertUp_Cons)
next
  fix x xs show "invertDown (xs @ [x]) = (x - 12) # xs" by (rule invertDown_snoc)
next
  fix chord and j :: int
  assume a: "createChord rt t = Some chord \<and> 0 \<le> j \<and> j < 3"
  then have c: "createChord rt t = Some chord" and j: "0 \<le> j" "j < 3" by blast+
  from built_first_lowest [OF c j, of oct]
  show "hd (applyInversion j (applyOctave oct (notes chord)))
           = Min (set (applyInversion j (applyOctave oct (notes chord))))"
    by blast
next
  fix chord and j :: int
  assume a: "createChord rt t = Some chord \<and> 0 \<le> j \<and> j < 3"
    and b: "j < 2 \<or> t \<noteq> T_7b13"
  then have c: "createChord rt t = Some chord" and j: "0 \<le> j" "j < 3" by blast+
  from built_first_lowest [OF c j, of oct] b
  show "last (applyInversion (- j) (applyOctave oct (notes chord)))
              = Max (set (applyInversion (- j) (applyOctave oct (notes chord))))"
    by blast
qed

theorem C6_inversion_rotates_by_position_witness:
  "createChord N_C T_add9 =
     Some \<lparr> root = N_C, type = T_add9, notes = [60, 64, 67, 74], name = ''Cadd9'' \<rparr>
   \<and> applyInversion 3 (applyOctave 1 [60, 64, 67, 74]) = [86, 84, 88, 91]
   \<and> applyInversion (- 3) (applyInversion 3 (applyOctave 1 [60, 64, 67, 74])) = [72, 76, 79, 86]
   \<and> applyInversion 0 (applyOctave 1 [60, 64, 67, 74]) = [72, 76, 79, 86]
   \<and> (0 :: int) \<le> 2 \<and> (2 :: int) < 3 \<and> T_add9 \<noteq> T_7b13
   \<and> applyInversion 2 (applyOctave 1 [60, 64, 67, 74]) = [79, 86, 84, 88]
   \<and> hd (applyInversion 2 (applyOctave 1 [60, 64, 67, 74]))
       = Min (set (applyInversion 2 (applyOctave 1 [60, 64, 67, 74])))
   \<and> applyInversion (- 2) (applyOctave 1 [60, 64, 67, 74]) = [67, 74, 72, 76]
   \<and> last (applyInversion (- 2) (applyOctave 1 [60, 64, 67, 74]))
       = Max (set (applyInversion (- 2) (applyOctave 1 [60, 64, 67, 74])))"
proof -
  let ?c = "\<lparr> root = N_C, type = T_add9, notes = [60, 64, 67, 74], name = ''Cadd9'' \<rparr>"
  note t = C6_inversion_rotates_by_position [of N_C T_add9 3 1]
  have c: "createChord N_C T_add9 = Some ?c" by (rule createChord_C_add9)
  from t c have "applyInversion (- 3) (applyInversion 3 (applyOctave 1 (notes ?c)))
         = applyInversion 0 (applyOctave 1 (notes ?c))"
    by blast
  then have 1: "applyInversion (- 3) (applyInversion 3 (applyOctave 1 [60, 64, 67, 74]))
      = [72, 76, 79, 86]"
    by (simp add: applyInversion_small applyOctave_def)
  have 2: "applyInversion 3 (applyOctave 1 [60, 64, 67, 74]) = [86, 84, 88, 91]"
    by (simp add: applyInversion_def applyOctave_def eval_nat_numeral invertUp_Cons)
  have 3: "applyInversion 0 (applyOctave 1 [60, 64, 67, 74]) = [72, 76, 79, 86]"
    by (simp add: applyInversion_small applyOctave_def)
  have j: "(0 :: int) \<le> 2 \<and> (2 :: int) < 3" and d: "T_add9 \<noteq> T_7b13" by simp_all
  from t c j d have "hd (applyInversion 2 (applyOctave 1 (notes ?c)))
           = Min (set (applyInversion 2 (applyOctave 1 (notes ?c))))
       \<and> last (applyInversion (- 2) (applyOctave 1 (notes ?c)))
           = Max (set (applyInversion (- 2) (applyOctave 1 (notes ?c))))"
    by blast
  then have 4: "hd (applyInversion 2 (applyOctave 1 [60, 64, 67, 74]))
       = Min (set (applyInversion 2 (applyOctave 1 [60, 64, 67, 74])))"
    and 5: "last (applyInversion (- 2) (applyOctave 1 [60, 64, 67, 74]))
       = Max (set (applyInversion (- 2) (applyOctave 1 [60, 64, 67, 74])))"
    by simp_all
  have 6: "applyInversion 2 (applyOctave 1 [60, 64, 67, 74]) = [79, 86, 84, 88]"
    by (simp add: applyInversion_small applyOctave_def invertUp_Cons)
  have 7: "applyInversion (- 2) (applyOctave 1 [60, 64, 67, 74]) = [67, 74, 72, 76]"
    by (simp add: applyInversion_small applyOctave_def invertDown_last)
  from c 1 2 3 j d 4 5 6 7 show ?thesis by blast
qed

text \<open>
  Claim C6 as stated fails at C 7b13 with inversion -3: after two steps down the notes
  are 58, 68, 60, 64, 67, and the third step lowers the last note, 67, while the highest
  note, 68, stays in the chord.
\<close>

theorem C6_third_step_down_counterexample:
  "createChord N_C T_7b13 =
     Some \<lparr> root = N_C, type = T_7b13, notes = [60, 64, 67, 70, 80], name = ''C7b13'' \<rparr>
   \<and> applyInversion (- 2) (applyOctave 0 [60, 64, 67, 70, 80]) = [58, 68, 60, 64, 67]
   \<and> applyInversion (- 3) (applyOctave 0 [60, 64, 67, 70, 80]) = [55, 58, 68, 60, 64]
   \<and> Max (set (applyInversion (- 2) (applyOctave 0 [60, 64, 67, 70, 80]))) = 68
   \<and> last (applyInversion (- 2) (applyOctave 0 [60, 64, 67, 70, 80])) = 67
   \<and> Max (set (applyInversion (- 2) (applyOctave 0 [60, 64, 67, 70, 80])))
       \<in> set (applyInversion (- 3) (applyOctave 0 [60, 64, 67, 70, 80]))
   \<and> Max (set (applyInversion (- 2) (applyOctave 0 [60, 64, 67, 70, 80]))) - 12
       \<notin> set (applyInversion (- 3) (applyOctave 0 [60, 64, 67, 70, 80]))"
proof -
  have 2: "applyInversion (- 2) (applyOctave 0 [60, 64, 67, 70, 80]) = [58, 68, 60, 64, 67]"
    by (simp add: applyInversion_small applyOctave_def invertDown_last)
  have 3: "applyInversion (- 3) (applyOctave 0 [60, 64, 67, 70, 80]) = [55, 58, 68, 60, 64]"
    by (simp add: applyInversion_def applyOctave_def eval_nat_numeral invertDown_last)
  show ?thesis
    unfolding 2 3 by (simp add: createChord_C_7b13)
qed

subsection \<open>Key presses\<close>

lemma indexOf_allNotes: "note \<in> set allNotes \<Longrightarrow> indexOf allNotes note = NOTE_VALUES note"
  by (auto simp add: allNotes_def)

lemma handleKeyPress_events:
  assumes "mode st = M_free \<or> note \<in> set (scaleNotes st)"
    and "createChord note (getCurrentChordType st note) = Some chord"
  shows "snd (handleKeyPress st note) =
     [PlayChord (applyInversion (inversion st) (applyOctave (octave st) (notes chord)))
        (selectedSound st)]
     @ bassEvents st note chord
     @ [OnChordChange (Some (chord\<lparr> notes :=
            applyInversion (inversion st) (applyOctave (octave st) (notes chord)),
          name := getChordName st note \<rparr>)), OnNoteSelect note]"
  using assms by (auto simp add: handleKeyPress_def Let_def)

lemma bassNotesPlayed_simps:
  "bassNotesPlayed [] = []"
  "bassNotesPlayed (PlayBassNote b # evs) = b # bassNotesPlayed evs"
  "bassNotesPlayed (PlayChord ns s # evs) = bassNotesPlayed evs"
  "bassNotesPlayed (OnChordChange c # evs) = bassNotesPlayed evs"
  "bassNotesPlayed (OnNoteSelect n # evs) = bassNotesPlayed evs"
  "bassNotesPlayed (evs @ evs') = bassNotesPlayed evs @ bassNotesPlayed evs'"
  by (simp_all add: bassNotesPlayed_def)

lemma chordsPlayed_simps:
  "chordsPlayed [] = []"
  "chordsPlayed (PlayBassNote b # evs) = chordsPlayed evs"
  "chordsPlayed (PlayChord ns s # evs) = ns # chordsPlayed evs"
  "chordsPlayed (OnChordChange c # evs) = chordsPlayed evs"
  "chordsPlayed (OnNoteSelect n # evs) = chordsPlayed evs"
  "chordsPlayed (evs @ evs') = chordsPlayed evs @ chordsPlayed evs'"
  by (simp_all add: chordsPlayed_def)

lemma handleKeyPress_bass:
  assumes "mode st = M_free \<or> note \<in> set (scaleNotes st)"
    and "createChord note (getCurrentChordType st note) = Some chord"
  shows "bassNotesPlayed (snd (handleKeyPress st note))
           = bassNotesPlayed (bassEvents st note chord)"
  by (simp add: handleKeyPress_events [OF assms] bassNotesPlayed_simps)

lemma built_root:
  assumes "createChord rt t = Some chord"
  shows "hd (notes chord) = NOTE_VALUES rt + 60"
proof -
  from assms obtain p where cp: "chordPattern t = Some p"
    and nc: "notes chord = map (\<lambda>interval. NOTE_VALUES rt + interval + 60) p"
    by (auto simp add: createChord_Some)
  from chordPattern_in_table [OF cp] CHORD_PATTERNS_steps have "p \<noteq> []" "hd p = 0"
    by blast+
  then show ?thesis by (simp add: nc hd_map)
qed

lemma getCurrentChordType_voicing:
  "getCurrentChordType (st\<lparr> octave := oct, inversion := k \<rparr>) note = getCurrentChordType st note"
  by (simp add: getCurrentChordType_def getAvailableChordTypes_def)

lemma ALL_CHORD_TYPES_nth: "ALL_CHORD_TYPES ! 0 = T_major" "ALL_CHORD_TYPES ! 10 = T_phi7"
  by (simp_all add: ALL_CHORD_TYPES_def)

lemma chordPattern_phi7: "chordPattern T_phi7 = None"
  by (simp add: chordPattern_def CHORD_PATTERNS_def phi_def)

lemmas press_defs =
  handleKeyPress_def getCurrentChordType_def orZero_def at_def ALL_CHORD_TYPES_length
  ALL_CHORD_TYPES_nth createChord_def chordPattern_major chordPattern_phi7
  applyInversion_def applyOctave_def bassEvents_def getChordName_def convertNoteDisplay_def
  getBassNote_def js_rem_def allNotes_def Let_def

lemma first_press_C_bass0_oct1:
  "handleKeyPress ((mounted N_C M_free)\<lparr> octave := 1, selectedBassOffset := Some 0 \<rparr>) N_C =
     (\<lparr> selectedKey = N_C, mode = M_free, octave = 1, inversion = 0, selectedSound = Piano,
        useFlats = False, selectedBassOffset = Some 0,
        scaleNotes = [N_C, N_Cs, N_D, N_Ds, N_E, N_F, N_Fs, N_G, N_Gs, N_A, N_As, N_B],
        currentChord =
          Some \<lparr> root = N_C, type = T_major, notes = [72, 76, 79], name = ''C'' \<rparr>,
        lastPressedNote = Some N_C, chordTypeIndices = Map.empty, prevMode = M_free \<rparr>,
      [PlayChord [72, 76, 79] Piano,
       OnChordChange (Some \<lparr> root = N_C, type = T_major, notes = [72, 76, 79], name = ''C'' \<rparr>),
       OnNoteSelect N_C])"
  by (simp add: mounted_C_free press_defs)

lemma second_press_C_bass0_oct1:
  "snd (handleKeyPress
         (fst (handleKeyPress
                ((mounted N_C M_free)\<lparr> octave := 1, selectedBassOffset := Some 0 \<rparr>) N_C)) N_C) =
      [PlayChord [72, 76, 79] Piano, PlayBassNote 48,
       OnChordChange (Some \<lparr> root = N_C, type = T_major, notes = [72, 76, 79], name = ''C'' \<rparr>),
       OnNoteSelect N_C]"
  unfolding first_press_C_bass0_oct1 fst_conv
  by (simp add: press_defs)

lemma first_press_C_bass0:
  "handleKeyPress ((mounted N_C M_free)\<lparr> selectedBassOffset := Some 0 \<rparr>) N_C =
     (\<lparr> selectedKey = N_C, mode = M_free, octave = 0, inversion = 0, selectedSound = Piano,
        useFlats = False, selectedBassOffset = Some 0,
        scaleNotes = [N_C, N_Cs, N_D, N_Ds, N_E, N_F, N_Fs, N_G, N_Gs, N_A, N_As, N_B],
        currentChord =
          Some \<lparr> root = N_C, type = T_major, notes = [60, 64, 67], name = ''C'' \<rparr>,
        lastPressedNote = Some N_C, chordTypeIndices = Map.empty, prevMode = M_free \<rparr>,
      [PlayChord [60, 64, 67] Piano,
       OnChordChange (Some \<lparr> root = N_C, type = T_major, notes = [60, 64, 67], name = ''C'' \<rparr>),
       OnNoteSelect N_C])"
  by (simp add: mounted_C_free press_defs)

text \<open>
  Claim C4, as amended. With the bass offset 0, when a key of the keyboard is pressed
  that is the last pressed note the handler sees, and a chord is built, the one bass
  pitch played is the first note of the chord as \<^verbatim>\<open>createChord\<close> built it, before
  the octave shift and the inversion, less 12: the value of the root plus 48, whatever
  the octave and the inversion are.
\<close>

theorem C4_bass_is_unshifted_root_an_octave_down:
  assumes "selectedBassOffset st = Some 0"
    and "lastPressedNote st = Some note"
    and "note \<in> set allNotes"
    and "mode st = M_free \<or> note \<in> set (scaleNotes st)"
    and "createChord note (getCurrentChordType st note) = Some chord"
  shows "bassNotesPlayed (snd (handleKeyPress st note)) = [hd (notes chord) - 12]
       \<and> hd (notes chord) - 12 = NOTE_VALUES note + 48
       \<and> bassNotesPlayed (snd (handleKeyPress (st\<lparr> octave := oct, inversion := k \<rparr>) note))
           = [NOTE_VALUES note + 48]"
proof -
  have i: "indexOf allNotes note \<noteq> - 1"
    using assms(3) NOTE_VALUES_range [of "note"] by (simp add: indexOf_allNotes)
  have r: "hd (notes chord) - 12 = NOTE_VALUES note + 48"
    using built_root [OF assms(5)] by simp
  have b: "bassEvents st' note chord = [PlayBassNote (hd (notes chord) - 12)]"
    if "selectedBassOffset st' = Some 0" "lastPressedNote st' = Some note" for st'
    using that i by (simp add: bassEvents_def)
  have 1: "bassNotesPlayed (snd (handleKeyPress st note)) = [hd (notes chord) - 12]"
    using handleKeyPress_bass [OF assms(4) assms(5)] b [OF assms(1) assms(2)]
    by (simp add: bassNotesPlayed_simps)
  let ?v = "st\<lparr> octave := oct, inversion := k \<rparr>"
  have m: "mode ?v = M_free \<or> note \<in> set (scaleNotes ?v)" using assms(4) by simp
  have c: "createChord note (getCurrentChordType ?v note) = Some chord"
    using assms(5) by (simp only: getCurrentChordType_voicing)
  have "bassEvents ?v note chord = [PlayBassNote (hd (notes chord) - 12)]"
    using assms(1) assms(2) by (intro b) simp_all
  with handleKeyPress_bass [OF m c]
  have 2: "bassNotesPlayed (snd (handleKeyPress ?v note)) = [NOTE_VALUES note + 48]"
    by (simp add: bassNotesPlayed_simps r)
  from 1 r 2 show ?thesis by blast
qed

theorem C4_bass_is_unshifted_root_an_octave_down_witness:
  "selectedBassOffset
     (fst (handleKeyPress ((mounted N_C M_free)\<lparr> selectedBassOffset := Some 0 \<rparr>) N_C)) = Some 0
   \<and> lastPressedNote
     (fst (handleKeyPress ((mounted N_C M_free)\<lparr> selectedBassOffset := Some 0 \<rparr>) N_C)) = Some N_C
   \<and> N_C \<in> set allNotes
   \<and> mode
     (fst (handleKeyPress ((mounted N_C M_free)\<lparr> selectedBassOffset := Some 0 \<rparr>) N_C)) = M_free
   \<and> createChord N_C (getCurrentChordType
        (fst (handleKeyPress ((mounted N_C M_free)\<lparr> selectedBassOffset := Some 0 \<rparr>) N_C)) N_C)
       = Some \<lparr> root = N_C, type = T_major, notes = [60, 64, 67], name = ''Cmajor'' \<rparr>
   \<and> bassNotesPlayed (snd (handleKeyPress
        (fst (handleKeyPress ((mounted N_C M_free)\<lparr> selectedBassOffset := Some 0 \<rparr>) N_C)) N_C))
       = [48]
   \<and> bassNotesPlayed (snd (handleKeyPress
        ((fst (handleKeyPress ((mounted N_C M_free)\<lparr> selectedBassOffset := Some 0 \<rparr>) N_C))
           \<lparr> octave := 2, inversion := - 1 \<rparr>) N_C))
       = [48]"
proof -
  let ?s = "fst (handleKeyPress ((mounted N_C M_free)\<lparr> selectedBassOffset := Some 0 \<rparr>) N_C)"
  let ?c = "\<lparr> root = N_C, type = T_major, notes = [60, 64, 67], name = ''Cmajor'' \<rparr>"
  have 1: "selectedBassOffset ?s = Some 0" by (simp add: first_press_C_bass0)
  have 2: "lastPressedNote ?s = Some N_C" by (simp add: first_press_C_bass0)
  have 3: "N_C \<in> set allNotes" by (simp add: allNotes_def)
  have 4: "mode ?s = M_free" by (simp add: first_press_C_bass0)
  then have m4: "mode ?s = M_free \<or> N_C \<in> set (scaleNotes ?s)" by blast
  have 5: "createChord N_C (getCurrentChordType ?s N_C) = Some ?c"
    unfolding first_press_C_bass0 fst_conv
    by (simp add: press_defs)
  from C4_bass_is_unshifted_root_an_octave_down [OF 1 2 3 m4 5, where oct = 2 and k = "- 1"]
  have 6: "bassNotesPlayed (snd (handleKeyPress ?s N_C)) = [48]"
    and 7: "bassNotesPlayed (snd (handleKeyPress (?s\<lparr> octave := 2, inversion := - 1 \<rparr>) N_C))
       = [48]"
    by simp_all
  from 1 2 3 4 5 6 7 show ?thesis by blast
qed

text \<open>
  Claim C4 as stated fails with octave 1: pressing C twice in free mode with the bass
  offset 0, the second press plays the chord 72, 76, 79 and the bass pitch 48, not the
  lowest note after the octave shift taken one octave down, which is 60.
\<close>

theorem C4_bass_ignores_octave_counterexample:
  "chordsPlayed (snd (handleKeyPress
         (fst (handleKeyPress
                ((mounted N_C M_free)\<lparr> octave := 1, selectedBassOffset := Some 0 \<rparr>) N_C)) N_C))
     = [[72, 76, 79]]
   \<and> bassNotesPlayed (snd (handleKeyPress
         (fst (handleKeyPress
                ((mounted N_C M_free)\<lparr> octave := 1, selectedBassOffset := Some 0 \<rparr>) N_C)) N_C))
     = [48]
   \<and> bassNotesPlayed (snd (handleKeyPress
         (fst (handleKeyPress
                ((mounted N_C M_free)\<lparr> octave := 1, selectedBassOffset := Some 0 \<rparr>) N_C)) N_C))
     \<noteq> [Min (set (hd (chordsPlayed (snd (handleKeyPress
         (fst (handleKeyPress
                ((mounted N_C M_free)\<lparr> octave := 1, selectedBassOffset := Some 0 \<rparr>) N_C))
         N_C))))) - 12]"
  unfolding second_press_C_bass0_oct1
  by (simp add: chordsPlayed_simps bassNotesPlayed_simps)

subsection \<open>Chord building\<close>

text \<open>
  Every chord type but the half-diminished one has a pattern, and the chord built is
  the pattern with the value of the root and 60 added to each offset. In C major the
  first press of C plays 60, 64, 67 under the name C (\<open>pressed_C_major\<close>), and after
  one step up the next press plays 60, 64, 67, 71 under the name Cmaj7.
\<close>

lemma chordPattern_defined: "t \<noteq> T_phi7 \<Longrightarrow> chordPattern t \<noteq> None"
  by (cases t) (simp_all add: chordPattern_def CHORD_PATTERNS_def)

lemma createChord_anchor:
  assumes "t \<noteq> T_phi7"
  shows "\<exists>p. chordPattern t = Some p
           \<and> createChord rt t =
               Some \<lparr> root = rt, type = t,
                      notes = map (\<lambda>interval. NOTE_VALUES rt + interval + 60) p,
                      name = noteStr rt @ chordTypeStr t \<rparr>"
  using chordPattern_defined [OF assms] by (auto simp add: createChord_def)

lemma chordPattern_major7: "chordPattern T_major7 = Some [0, 4, 7, 11]"
  by (simp add: chordPattern_def CHORD_PATTERNS_def)

lemma press_C_major_after_advance:
  "handleKeyPress (adjustLastChordType (fst (handleKeyPress (mounted N_C M_major) N_C)) Up) N_C =
     (\<lparr> selectedKey = N_C, mode = M_major, octave = 0, inversion = 0, selectedSound = Piano,
        useFlats = False, selectedBassOffset = None,
        scaleNotes = [N_C, N_D, N_E, N_F, N_G, N_A, N_B],
        currentChord =
          Some \<lparr> root = N_C, type = T_major7, notes = [60, 64, 67, 71], name = ''Cmaj7'' \<rparr>,
        lastPressedNote = Some N_C, chordTypeIndices = [N_C \<mapsto> 1], prevMode = M_major \<rparr>,
      [PlayChord [60, 64, 67, 71] Piano,
       OnChordChange
         (Some \<lparr> root = N_C, type = T_major7, notes = [60, 64, 67, 71], name = ''Cmaj7'' \<rparr>),
       OnNoteSelect N_C])"
  unfolding pressed_C_major fst_conv
  by (simp add: adjustLastChordType_def getAvailableChordTypes_def
      MAJOR_SCALE_CHORDS_def handleKeyPress_def getCurrentChordType_def orZero_def at_def
      createChord_def chordPattern_major7 applyInversion_def applyOctave_def bassEvents_def
      getChordName_def convertNoteDisplay_def js_rem_def Let_def)

text \<open>
  Claim C1 at the chord type of the half-diminished symbol. The type is in the list of
  free mode, but \<^verbatim>\<open>CHORD_PATTERNS\<close> has its pattern under another key, so
  \<^verbatim>\<open>createChord\<close> returns \<^verbatim>\<open>null\<close>: with the cursor of C at index 10 in free
  mode, pressing C plays nothing.
\<close>

theorem C1_half_diminished_is_not_built:
  "T_phi7 \<in> set ALL_CHORD_TYPES
   \<and> createChord N_C T_phi7 = None
   \<and> map_of CHORD_PATTERNS [CHR 0xC3, CHR 0x8F, CHR 0xE2, CHR 0x80, CHR 0xA0, CHR 0x37]
       = Some [0, 3, 6, 10]
   \<and> getCurrentChordType
        ((mounted N_C M_free)\<lparr> lastPressedNote := Some N_C, chordTypeIndices := [N_C \<mapsto> 10] \<rparr>)
        N_C = T_phi7
   \<and> snd (handleKeyPress
        ((mounted N_C M_free)\<lparr> lastPressedNote := Some N_C, chordTypeIndices := [N_C \<mapsto> 10] \<rparr>)
        N_C) = []"
proof -
  have 1: "T_phi7 \<in> set ALL_CHORD_TYPES" by (simp add: ALL_CHORD_TYPES_def)
  have 2: "createChord N_C T_phi7 = None" by (simp add: createChord_def chordPattern_phi7)
  have 3: "map_of CHORD_PATTERNS [CHR 0xC3, CHR 0x8F, CHR 0xE2, CHR 0x80, CHR 0xA0, CHR 0x37]
       = Some [0, 3, 6, 10]"
    by (simp add: CHORD_PATTERNS_def)
  have 4: "getCurrentChordType
        ((mounted N_C M_free)\<lparr> lastPressedNote := Some N_C, chordTypeIndices := [N_C \<mapsto> 10] \<rparr>)
        N_C = T_phi7"
    by (simp add: mounted_C_free press_defs)
  have 5: "snd (handleKeyPress
        ((mounted N_C M_free)\<lparr> lastPressedNote := Some N_C, chordTypeIndices := [N_C \<mapsto> 10] \<rparr>)
        N_C) = []"
    by (simp add: mounted_C_free press_defs)
  from 1 2 3 4 5 show ?thesis by blast
qed

subsection \<open>Numeric bass offsets\<close>

text \<open>
  With a bass offset other than 0, a press that plays a bass pitch plays 48 plus the
  JavaScript remainder of root index plus offset by 12, whatever the octave and the
  inversion are; this is 48 plus the sum modulo 12 when the sum is not negative.
\<close>

lemma bass_numeric_offset:
  assumes "selectedBassOffset st = Some off" and "off \<noteq> 0"
    and "lastPressedNote st = Some note"
    and "note \<in> set allNotes"
    and "mode st = M_free \<or> note \<in> set (scaleNotes st)"
    and "createChord note (getCurrentChordType st note) = Some chord"
  shows "bassNotesPlayed (snd (handleKeyPress st note))
           = [48 + js_rem (NOTE_VALUES note + off) 12]"
    and "0 \<le> NOTE_VALUES note + off \<Longrightarrow>
         bassNotesPlayed (snd (handleKeyPress st note))
           = [48 + (NOTE_VALUES note + off) mod 12]"
proof -
  have i: "indexOf allNotes note = NOTE_VALUES note"
    using assms(4) by (rule indexOf_allNotes)
  have "indexOf allNotes note \<noteq> - 1"
    using NOTE_VALUES_range [of "note"] by (simp add: i)
  then have "bassEvents st note chord = [PlayBassNote (48 + js_rem (NOTE_VALUES note + off) 12)]"
    using assms(1,2,3) by (simp add: bassEvents_def i)
  with handleKeyPress_bass [OF assms(5) assms(6)]
  show 1: "bassNotesPlayed (snd (handleKeyPress st note))
           = [48 + js_rem (NOTE_VALUES note + off) 12]"
    by (simp add: bassNotesPlayed_simps)
  show "bassNotesPlayed (snd (handleKeyPress st note))
           = [48 + (NOTE_VALUES note + off) mod 12]"
    if "0 \<le> NOTE_VALUES note + off"
    using 1 that by (simp add: js_rem_nonneg)
qed

lemma first_press_C_bass_minus1:
  "handleKeyPress ((mounted N_C M_free)\<lparr> selectedBassOffset := Some (- 1) \<rparr>) N_C =
     (\<lparr> selectedKey = N_C, mode = M_free, octave = 0, inversion = 0, selectedSound = Piano,
        useFlats = False, selectedBassOffset = Some (- 1),
        scaleNotes = [N_C, N_Cs, N_D, N_Ds, N_E, N_F, N_Fs, N_G, N_Gs, N_A, N_As, N_B],
        currentChord =
          Some \<lparr> root = N_C, type = T_major, notes = [60, 64, 67], name = ''C'' \<rparr>,
        lastPressedNote = Some N_C, chordTypeIndices = Map.empty, prevMode = M_free \<rparr>,
      [PlayChord [60, 64, 67] Piano,
       OnChordChange (Some \<lparr> root = N_C, type = T_major, notes = [60, 64, 67], name = ''C'' \<rparr>),
       OnNoteSelect N_C])"
  by (simp add: mounted_C_free press_defs)

text \<open>
  Claim C3 at root C and offset -1. Pressing C twice in free mode, the second press
  plays the bass pitch 47, below the register from 48 to 59, where the claim gives
  48 + ((0 - 1) mod 12) = 59; the label of the same note reads \<^verbatim>\<open>undefined\<close> for the
  bass.
\<close>

theorem C3_negative_offset_leaves_register:
  "snd (handleKeyPress
         (fst (handleKeyPress
                ((mounted N_C M_free)\<lparr> selectedBassOffset := Some (- 1) \<rparr>) N_C)) N_C)
     = [PlayChord [60, 64, 67] Piano, PlayBassNote 47,
        OnChordChange
          (Some \<lparr> root = N_C, type = T_major, notes = [60, 64, 67], name = ''C/undefined'' \<rparr>),
        OnNoteSelect N_C]
   \<and> bassNotesPlayed (snd (handleKeyPress
         (fst (handleKeyPress
                ((mounted N_C M_free)\<lparr> selectedBassOffset := Some (- 1) \<rparr>) N_C)) N_C))
     = [47]
   \<and> 48 + (NOTE_VALUES N_C + (- 1)) mod 12 = 59
   \<and> getBassNote N_C (Some (- 1)) = ''/undefined''"
proof -
  have 1: "snd (handleKeyPress
         (fst (handleKeyPress
                ((mounted N_C M_free)\<lparr> selectedBassOffset := Some (- 1) \<rparr>) N_C)) N_C)
     = [PlayChord [60, 64, 67] Piano, PlayBassNote 47,
        OnChordChange
          (Some \<lparr> root = N_C, type = T_major, notes = [60, 64, 67], name = ''C/undefined'' \<rparr>),
        OnNoteSelect N_C]"
    unfolding first_press_C_bass_minus1 fst_conv
    by (simp add: press_defs)
  have 2: "48 + (NOTE_VALUES N_C + (- 1)) mod 12 = 59" by simp
  have 3: "getBassNote N_C (Some (- 1)) = ''/undefined''"
    by (simp add: getBassNote_def js_rem_def at_def allNotes_def)
  show ?thesis
    unfolding 1 using 2 3 by (simp add: bassNotesPlayed_simps)
qed

subsection \<open>The bass and the last pressed note\<close>

lemma first_press_C_bass1:
  "handleKeyPress ((mounted N_C M_free)\<lparr> selectedBassOffset := Some 1 \<rparr>) N_C =
     (\<lparr> selectedKey = N_C, mode = M_free, octave = 0, inversion = 0, selectedSound = Piano,
        useFlats = False, selectedBassOffset = Some 1,
        scaleNotes = [N_C, N_Cs, N_D, N_Ds, N_E, N_F, N_Fs, N_G, N_Gs, N_A, N_As, N_B],
        currentChord =
          Some \<lparr> root = N_C, type = T_major, notes = [60, 64, 67], name = ''C'' \<rparr>,
        lastPressedNote = Some N_C, chordTypeIndices = Map.empty, prevMode = M_free \<rparr>,
      [PlayChord [60, 64, 67] Piano,
       OnChordChange (Some \<lparr> root = N_C, type = T_major, notes = [60, 64, 67], name = ''C'' \<rparr>),
       OnNoteSelect N_C])"
  by (simp add: mounted_C_free press_defs)

lemma press_D_after_C_bass1:
  "handleKeyPress
     (fst (handleKeyPress ((mounted N_C M_free)\<lparr> selectedBassOffset := Some 1 \<rparr>) N_C)) N_D =
     (\<lparr> selectedKey = N_C, mode = M_free, octave = 0, inversion = 0, selectedSound = Piano,
        useFlats = False, selectedBassOffset = Some 1,
        scaleNotes = [N_C, N_Cs, N_D, N_Ds, N_E, N_F, N_Fs, N_G, N_Gs, N_A, N_As, N_B],
        currentChord =
          Some \<lparr> root = N_D, type = T_major, notes = [62, 66, 69], name = ''D'' \<rparr>,
        lastPressedNote = Some N_D, chordTypeIndices = Map.empty, prevMode = M_free \<rparr>,
      [PlayChord [62, 66, 69] Piano,
       OnChordChange (Some \<lparr> root = N_D, type = T_major, notes = [62, 66, 69], name = ''D'' \<rparr>),
       OnNoteSelect N_D])"
  unfolding first_press_C_bass1 fst_conv
  by (simp add: press_defs)

text \<open>
  Claim C5 at a bass offset of 1 in free mode. After a press of C, a press of D makes D
  the last pressed note but plays no bass pitch, and the chord it reports is named D
  without the bass; neither does the very first press of C play one. Only a second
  press of the same note plays the bass (49 for C). The label of D computed from the new
  state carries the bass, the label of C does not.
\<close>

theorem C5_newly_pressed_note_gets_no_bass:
  "lastPressedNote (fst (handleKeyPress
       (fst (handleKeyPress ((mounted N_C M_free)\<lparr> selectedBassOffset := Some 1 \<rparr>) N_C)) N_D))
     = Some N_D
   \<and> snd (handleKeyPress
       (fst (handleKeyPress ((mounted N_C M_free)\<lparr> selectedBassOffset := Some 1 \<rparr>) N_C)) N_D)
     = [PlayChord [62, 66, 69] Piano,
        OnChordChange (Some \<lparr> root = N_D, type = T_major, notes = [62, 66, 69], name = ''D'' \<rparr>),
        OnNoteSelect N_D]
   \<and> bassNotesPlayed (snd (handleKeyPress
       (fst (handleKeyPress ((mounted N_C M_free)\<lparr> selectedBassOffset := Some 1 \<rparr>) N_C)) N_D))
     = []
   \<and> bassNotesPlayed
       (snd (handleKeyPress ((mounted N_C M_free)\<lparr> selectedBassOffset := Some 1 \<rparr>) N_C))
     = []
   \<and> bassNotesPlayed (snd (handleKeyPress
       (fst (handleKeyPress ((mounted N_C M_free)\<lparr> selectedBassOffset := Some 1 \<rparr>) N_C)) N_C))
     = [49]
   \<and> getChordName (fst (handleKeyPress
       (fst (handleKeyPress ((mounted N_C M_free)\<lparr> selectedBassOffset := Some 1 \<rparr>) N_C)) N_D))
       N_D = ''D/D#''
   \<and> getChordName (fst (handleKeyPress
       (fst (handleKeyPress ((mounted N_C M_free)\<lparr> selectedBassOffset := Some 1 \<rparr>) N_C)) N_D))
       N_C = ''C''"
proof -
  let ?s = "(mounted N_C M_free)\<lparr> selectedBassOffset := Some 1 \<rparr>"
  have a: "lastPressedNote (fst (handleKeyPress (fst (handleKeyPress ?s N_C)) N_D)) = Some N_D"
    unfolding press_D_after_C_bass1 by simp
  have b: "snd (handleKeyPress (fst (handleKeyPress ?s N_C)) N_D)
     = [PlayChord [62, 66, 69] Piano,
        OnChordChange (Some \<lparr> root = N_D, type = T_major, notes = [62, 66, 69], name = ''D'' \<rparr>),
        OnNoteSelect N_D]"
    unfolding press_D_after_C_bass1 by simp
  have c: "bassNotesPlayed (snd (handleKeyPress (fst (handleKeyPress ?s N_C)) N_D)) = []"
    unfolding b by (simp add: bassNotesPlayed_simps)
  have d: "bassNotesPlayed (snd (handleKeyPress ?s N_C)) = []"
    unfolding first_press_C_bass1 by (simp add: bassNotesPlayed_simps)
  have e: "bassNotesPlayed (snd (handleKeyPress (fst (handleKeyPress ?s N_C)) N_C)) = [49]"
    unfolding first_press_C_bass1 fst_conv
    by (simp add: press_defs bassNotesPlayed_simps)
  have f: "getChordName (fst (handleKeyPress (fst (handleKeyPress ?s N_C)) N_D)) N_D = ''D/D#''"
    unfolding press_D_after_C_bass1 fst_conv
    by (simp add: press_defs)
  have g: "getChordName (fst (handleKeyPress (fst (handleKeyPress ?s N_C)) N_D)) N_C = ''C''"
    unfolding press_D_after_C_bass1 fst_conv
    by (simp add: press_defs)
  from a b c d e f g show ?thesis by blast
qed

end
